theory Spec2Isabelle
  imports Main "HOL-Library.Word"
begin

section \<open>Values, errors and the hash primitive\<close>

text \<open>
  The off-chain code (\<open>circuits/utils/merkleTree.js\<close>, its TypeScript twin and the
  reference flow \<open>index.js\<close>) works on JavaScript bigints, modelled as \<open>int\<close>. A hash
  result is the decimal string of a field element; such a string is identified with the
  integer it prints. The Poseidon permutation itself comes from the external library
  circomlibjs (and circomlib on the circuit side); it is a parameter
  \<open>H :: int list \<Rightarrow> int\<close> of every definition that hashes.

  Every \<open>throw\<close> of the source is a constructor of \<open>js_error\<close>, named after the message
  thrown; \<open>TypeError\<close> and \<open>SyntaxError\<close> are the exceptions of the language itself
  (a method call on \<open>undefined\<close>, \<open>BigInt\<close> of a string that is no integer literal).
\<close>

datatype js_error =
    Tree_is_full
  | Leaf_does_not_exist
  | Deposit_not_found
  | Deposit_already_withdrawn
  | Invalid_proof
  | TypeError
  | SyntaxError

text \<open>Reading an array element: \<open>None\<close> is JavaScript's \<open>undefined\<close>.\<close>

definition js_index :: "'a list \<Rightarrow> nat \<Rightarrow> 'a option" where
  "js_index xs i = (if i < length xs then Some (xs ! i) else None)"

subsection \<open>\<open>toField\<close>: BigInt of a string or a number\<close>

text \<open>
  An argument of \<open>poseidonHash\<close> is a string, a number or a bigint. \<open>BigInt(string)\<close>
  follows the language's StringToBigInt: surrounding white space is dropped, the empty
  string is 0, a literal is a signed decimal numeral or an unsigned one with prefix
  \<open>0x\<close>, \<open>0o\<close> or \<open>0b\<close>, anything else is a SyntaxError. Strings are ASCII here.
  \<open>Big\<close> is a bigint or an integral number, which \<open>BigInt\<close> returns as it is.
\<close>

datatype field_input = Str string | Big int

definition is_ws :: "char \<Rightarrow> bool" where
  "is_ws c = (c \<in> set [CHR 0x20, CHR 0x09, CHR 0x0A, CHR 0x0B, CHR 0x0C, CHR 0x0D])"

definition trim :: "string \<Rightarrow> string" where
  "trim s = rev (dropWhile is_ws (rev (dropWhile is_ws s)))"

definition digit_val :: "char \<Rightarrow> nat option" where
  "digit_val c =
     (let n = (of_char c :: nat) in
      if 48 \<le> n \<and> n \<le> 57 then Some (n - 48)
      else if 97 \<le> n \<and> n \<le> 102 then Some (n - 87)
      else if 65 \<le> n \<and> n \<le> 70 then Some (n - 55)
      else None)"

fun digits_val :: "nat \<Rightarrow> string \<Rightarrow> int \<Rightarrow> int option" where
  "digits_val base [] acc = Some acc"
| "digits_val base (c # cs) acc =
     (case digit_val c of
        None \<Rightarrow> None
      | Some d \<Rightarrow> if d < base then digits_val base cs (acc * int base + int d) else None)"

definition parse_digits :: "nat \<Rightarrow> string \<Rightarrow> int option" where
  "parse_digits base s = (if s = [] then None else digits_val base s 0)"

definition has_prefix :: "string \<Rightarrow> string \<Rightarrow> string \<Rightarrow> bool" where
  "has_prefix s lower upper = (take 2 s = lower \<or> take 2 s = upper)"

definition StringToBigInt :: "string \<Rightarrow> int option" where
  "StringToBigInt s =
     (let t = trim s in
      if t = [] then Some 0
      else if has_prefix t ''0x'' ''0X'' then parse_digits 16 (drop 2 t)
      else if has_prefix t ''0o'' ''0O'' then parse_digits 8 (drop 2 t)
      else if has_prefix t ''0b'' ''0B'' then parse_digits 2 (drop 2 t)
      else if take 1 t = ''+'' then parse_digits 10 (drop 1 t)
      else if take 1 t = ''-'' then map_option uminus (parse_digits 10 (drop 1 t))
      else parse_digits 10 t)"

definition toField :: "field_input \<Rightarrow> js_error + int" where
  "toField num =
     (case num of
        Str s \<Rightarrow> (case StringToBigInt s of None \<Rightarrow> Inl SyntaxError | Some v \<Rightarrow> Inr v)
      | Big v \<Rightarrow> Inr v)"

text \<open>\<open>inputs.map(x => toField(x))\<close>: the first element that does not convert throws.\<close>

fun toField_all :: "field_input list \<Rightarrow> js_error + int list" where
  "toField_all [] = Inr []"
| "toField_all (x # xs) =
     (case toField x of
        Inl e \<Rightarrow> Inl e
      | Inr v \<Rightarrow> (case toField_all xs of Inl e \<Rightarrow> Inl e | Inr vs \<Rightarrow> Inr (v # vs)))"

definition poseidonHash :: "(int list \<Rightarrow> int) \<Rightarrow> field_input list \<Rightarrow> js_error + int" where
  "poseidonHash H inputs =
     (case toField_all inputs of Inl e \<Rightarrow> Inl e | Inr vs \<Rightarrow> Inr (H vs))"

definition generateCommitment ::
  "(int list \<Rightarrow> int) \<Rightarrow> field_input \<Rightarrow> field_input \<Rightarrow> field_input \<Rightarrow> js_error + int" where
  "generateCommitment H amount secret nullifierSecret =
     poseidonHash H [amount, secret, nullifierSecret]"

definition generateNullifierHash :: "(int list \<Rightarrow> int) \<Rightarrow> field_input \<Rightarrow> js_error + int" where
  "generateNullifierHash H nullifierSecret = poseidonHash H [nullifierSecret, Str ''1'']"

section \<open>The Merkle tree of commitments\<close>

text \<open>
  \<open>class MerkleTree\<close>. The field \<open>zeros\<close> holds what indexing the zero table yields. The
  TypeScript file awaits the table before it reads it, so there \<open>zeros\<close> is the list
  computed by \<open>_calculateZeros\<close>. The JavaScript file stores the promise returned by the
  async \<open>_calculateZeros\<close> and indexes the promise itself: every read is \<open>undefined\<close>,
  which is the empty list here.
\<close>

record MerkleTree =
  levels :: nat
  capacity :: nat
  leaves :: "int list"
  zeros :: "int list"
  filled :: nat

fun calculateZeros :: "(int list \<Rightarrow> int) \<Rightarrow> nat \<Rightarrow> int list" where
  "calculateZeros H 0 = [0]"
| "calculateZeros H (Suc n) =
     (let zs = calculateZeros H n in zs @ [H [last zs, last zs]])"

definition MerkleTree_new :: "(int list \<Rightarrow> int) \<Rightarrow> nat \<Rightarrow> MerkleTree" where
  "MerkleTree_new H lv =
     \<lparr>levels = lv, capacity = 2 ^ lv, leaves = replicate (2 ^ lv) 0,
      zeros = calculateZeros H lv, filled = 0\<rparr>"

definition MerkleTree_new_js :: "nat \<Rightarrow> MerkleTree" where
  "MerkleTree_new_js lv =
     \<lparr>levels = lv, capacity = 2 ^ lv, leaves = replicate (2 ^ lv) 0,
      zeros = [], filled = 0\<rparr>"

text \<open>
  What the constructor establishes and \<open>insert\<close> keeps: the leaf array has \<open>capacity\<close>
  slots, \<open>capacity\<close> is \<open>2 ^ levels\<close>, and the fill pointer is within it. Under it the
  write \<open>this.leaves[pos] = ...\<close> of \<open>insert\<close> is in range.
\<close>

definition tree_inv :: "MerkleTree \<Rightarrow> bool" where
  "tree_inv t =
     (capacity t = 2 ^ levels t \<and> length (leaves t) = capacity t \<and> filled t \<le> capacity t)"

text \<open>
  \<open>insert\<close> returns the outcome together with the tree after the call: an exception
  leaves the object as it was when it was thrown. \<open>BigInt(commitment)\<close> is evaluated
  before the assignment, so a commitment that does not convert changes nothing.
\<close>

definition insert_tree :: "MerkleTree \<Rightarrow> field_input \<Rightarrow> (js_error + nat) \<times> MerkleTree" where
  "insert_tree t commitment =
     (if filled t \<ge> capacity t then (Inl Tree_is_full, t)
      else
        let pos = filled t in
        case toField commitment of
          Inl e \<Rightarrow> (Inl e, t)
        | Inr v \<Rightarrow> (Inr pos, t\<lparr>leaves := (leaves t)[pos := v], filled := Suc (filled t)\<rparr>))"

text \<open>A sequence of \<open>insert\<close> calls on one tree, each call on the tree the last one left.\<close>

fun insert_all :: "MerkleTree \<Rightarrow> field_input list \<Rightarrow> MerkleTree" where
  "insert_all t [] = t"
| "insert_all t (c # cs) = insert_all (snd (insert_tree t c)) cs"

text \<open>
  \<open>generateProof\<close>: the loop \<open>for (i = 0; i < levels; i++)\<close> runs with \<open>k\<close> iterations
  left. \<open>sibling.toString()\<close> throws a TypeError when the element read is \<open>undefined\<close>.
  The index is a leaf index, a natural number.
\<close>

fun generateProof_loop ::
  "MerkleTree \<Rightarrow> nat \<Rightarrow> nat \<Rightarrow> nat \<Rightarrow> int list \<Rightarrow> nat list \<Rightarrow> js_error + (int list \<times> nat list)" where
  "generateProof_loop t 0 i currentIndex pathElements pathIndices =
     Inr (pathElements, pathIndices)"
| "generateProof_loop t (Suc k) i currentIndex pathElements pathIndices =
     (let isRight = currentIndex mod 2;
          siblingIndex = (if isRight \<noteq> 0 then currentIndex - 1 else currentIndex + 1);
          pathIndices' = pathIndices @ [if isRight \<noteq> 0 then 0 else 1];
          sibling = (if siblingIndex < filled t then js_index (leaves t) siblingIndex
                     else js_index (zeros t) i)
      in case sibling of
           None \<Rightarrow> Inl TypeError
         | Some s \<Rightarrow>
             generateProof_loop t k (Suc i) (currentIndex div 2) (pathElements @ [s]) pathIndices')"

definition generateProof :: "MerkleTree \<Rightarrow> nat \<Rightarrow> js_error + (int list \<times> nat list)" where
  "generateProof t index =
     (if index \<ge> filled t then Inl Leaf_does_not_exist
      else generateProof_loop t (levels t) 0 index [] [])"

text \<open>
  The two values \<open>generateProof\<close> pushes at one level, as expressions of the tree, the
  level and the current index: the sibling it reads and the direction bit.
\<close>

definition sibling_read :: "MerkleTree \<Rightarrow> nat \<Rightarrow> nat \<Rightarrow> int" where
  "sibling_read t level currentIndex =
     (let siblingIndex = (if currentIndex mod 2 \<noteq> 0 then currentIndex - 1 else currentIndex + 1)
      in if siblingIndex < filled t then leaves t ! siblingIndex else zeros t ! level)"

definition pushed_bit :: "nat \<Rightarrow> nat" where
  "pushed_bit currentIndex = (if currentIndex mod 2 \<noteq> 0 then 0 else 1)"

text \<open>
  \<open>getRoot\<close>. The inner loop overwrites \<open>hashes[i]\<close> in place, for \<open>i\<close> from 0 with \<open>n\<close>
  iterations left; \<open>left.toString()\<close> and \<open>right.toString()\<close> throw a TypeError on
  \<open>undefined\<close>. Printing a bigint and converting the string back is the identity, so the
  hash is applied to the two values. \<open>capacity\<close> is \<open>2 ^ levels\<close>, so the two divisions
  that give \<open>levelSize\<close> and \<open>nextLevelSize\<close> are exact.
\<close>

fun getRoot_inner ::
  "(int list \<Rightarrow> int) \<Rightarrow> MerkleTree \<Rightarrow> nat \<Rightarrow> nat \<Rightarrow> nat \<Rightarrow> int list \<Rightarrow> js_error + int list" where
  "getRoot_inner H t level 0 i hashes = Inr hashes"
| "getRoot_inner H t level (Suc n) i hashes =
     (let left = (if i * 2 < filled t then js_index hashes (i * 2)
                  else js_index (zeros t) level);
          right = (if i * 2 + 1 < filled t then js_index hashes (i * 2 + 1)
                   else js_index (zeros t) level)
      in case left of
           None \<Rightarrow> Inl TypeError
         | Some l \<Rightarrow>
             (case right of
                None \<Rightarrow> Inl TypeError
              | Some r \<Rightarrow> getRoot_inner H t level n (Suc i) (hashes[i := H [l, r]])))"

fun getRoot_levels ::
  "(int list \<Rightarrow> int) \<Rightarrow> MerkleTree \<Rightarrow> nat \<Rightarrow> nat \<Rightarrow> int list \<Rightarrow> js_error + int list" where
  "getRoot_levels H t 0 level hashes = Inr hashes"
| "getRoot_levels H t (Suc n) level hashes =
     (let levelSize = capacity t div 2 ^ level;
          nextLevelSize = levelSize div 2
      in case getRoot_inner H t level nextLevelSize 0 hashes of
           Inl e \<Rightarrow> Inl e
         | Inr hs \<Rightarrow> getRoot_levels H t n (Suc level) hs)"

definition getRoot :: "(int list \<Rightarrow> int) \<Rightarrow> MerkleTree \<Rightarrow> js_error + int" where
  "getRoot H t =
     (if filled t = 0 then
        (case js_index (zeros t) (levels t) of None \<Rightarrow> Inl TypeError | Some z \<Rightarrow> Inr z)
      else
        (case getRoot_levels H t (levels t) 0 (leaves t) of
           Inl e \<Rightarrow> Inl e
         | Inr hs \<Rightarrow> (case js_index hs 0 of None \<Rightarrow> Inl TypeError | Some r \<Rightarrow> Inr r)))"

text \<open>
  The JavaScript file returns \<open>this.zeros[this.levels]\<close> for the empty tree without
  calling a method on it, so there an \<open>undefined\<close> is returned, not thrown.
\<close>

definition getRoot_js :: "(int list \<Rightarrow> int) \<Rightarrow> MerkleTree \<Rightarrow> js_error + int option" where
  "getRoot_js H t =
     (if filled t = 0 then Inr (js_index (zeros t) (levels t))
      else map_sum id Some (getRoot H t))"

section \<open>The withdrawal circuit\<close>

text \<open>
  \<open>circuits/withdraw.circom\<close>, template \<open>Withdraw(levels)\<close>. Signals are elements of the
  scalar field of BN254, integers modulo \<open>field_p\<close>; \<open>===\<close> is equality in the field.
  The two hashers are circomlib's \<open>Poseidon(3)\<close> and \<open>Poseidon(2)\<close>, the same parameter
  \<open>H\<close> as on the JavaScript side.
\<close>

definition field_p :: int where
  "field_p = 21888242871839275222246405745257275088548364400416034343698204186575808495617"

definition commitmentHasher :: "(int list \<Rightarrow> int) \<Rightarrow> int \<Rightarrow> int \<Rightarrow> int \<Rightarrow> int" where
  "commitmentHasher H amount secret nullifierSecret = H [amount, secret, nullifierSecret]"

definition nullifierHasher :: "(int list \<Rightarrow> int) \<Rightarrow> int \<Rightarrow> int" where
  "nullifierHasher H nullifierSecret = H [nullifierSecret, 1]"

text \<open>
  The signal array \<open>currentHashes[levels + 1]\<close>: entry 0 is the commitment, entry
  \<open>i + 1\<close> is the level hasher's output on \<open>leftInput\<close> and \<open>rightInput\<close>.
\<close>

fun currentHashes :: "(int list \<Rightarrow> int) \<Rightarrow> int \<Rightarrow> int list \<Rightarrow> int list \<Rightarrow> nat \<Rightarrow> int" where
  "currentHashes H calculatedCommitment pathElements pathIndices 0 = calculatedCommitment"
| "currentHashes H calculatedCommitment pathElements pathIndices (Suc i) =
     (let cur = currentHashes H calculatedCommitment pathElements pathIndices i;
          leftInput =
            ((1 - pathIndices ! i) * cur + pathIndices ! i * pathElements ! i) mod field_p;
          rightInput =
            (pathIndices ! i * cur + (1 - pathIndices ! i) * pathElements ! i) mod field_p
      in H [leftInput, rightInput])"

text \<open>
  The constraint system: a witness satisfies the circuit when all constraints hold. The
  arrays \<open>pathElements\<close> and \<open>pathIndices\<close> have \<open>levels\<close> entries. The public inputs
  \<open>recipient\<close> and \<open>externalNullifier\<close> occur in no constraint.
\<close>

definition Withdraw ::
  "(int list \<Rightarrow> int) \<Rightarrow> nat \<Rightarrow> int \<Rightarrow> int \<Rightarrow> int list \<Rightarrow> int list \<Rightarrow>
   int \<Rightarrow> int \<Rightarrow> int \<Rightarrow> int \<Rightarrow> int \<Rightarrow> bool" where
  "Withdraw H lv secret nullifierSecret pathElements pathIndices
        merkleRoot nullifierHash recipient amount externalNullifier =
     (let calculatedCommitment = commitmentHasher H amount secret nullifierSecret;
          calculatedNullifierHash = nullifierHasher H nullifierSecret
      in length pathElements = lv \<and> length pathIndices = lv
         \<and> nullifierHash mod field_p = calculatedNullifierHash mod field_p
         \<and> list_all (\<lambda>b. (b * (b - 1)) mod field_p = 0) pathIndices
         \<and> merkleRoot mod field_p =
             currentHashes H calculatedCommitment pathElements pathIndices lv mod field_p)"

section \<open>The ledger contract\<close>

text \<open>
  \<open>contract PrivaxProtocol\<close> (Solidity 0.8). \<open>uint256\<close> and \<open>bytes32\<close> are 256-bit words,
  an \<open>address\<close> is a 160-bit word. A failed \<open>require\<close> reverts the transaction: the call
  returns \<open>Inl\<close> of the reason and the chain keeps the state it had before the call.
  Arithmetic is checked: an overflowing \<open>+\<close> reverts with a panic.

  The token and the verifier are external contracts. The token is an interface over a
  token state \<open>'ts\<close>: \<open>balanceOf\<close> reads it, \<open>transferFrom\<close> and \<open>transfer\<close> take the
  calling contract first and return the new token state and the call's boolean result,
  which the ledger ignores; \<open>None\<close> is a revert of the external call. The token does
  not call back into the ledger. The verifier is a \<open>view\<close> function.
\<close>

type_synonym uint256 = "256 word"
type_synonym bytes32 = "256 word"
type_synonym address = "160 word"

datatype event =
    AdminChanged address address
  | RelayerAdded address
  | RelayerRemoved address
  | DepositOccurred address address uint256 bytes32
  | WithdrawalOccurred bytes32 address address uint256

datatype revert =
    Deposit_amount_must_be_greater_than_zero
  | Token_transfer_failed_or_incorrect_amount
  | Withdrawal_amount_must_be_greater_than_zero
  | Recipient_cannot_be_the_zero_address
  | Incorrect_number_of_public_inputs
  | Recipient_mismatch_in_proof_inputs
  | Amount_mismatch_in_proof_inputs
  | Invalid_ZK_proof
  | Panic_arithmetic_overflow
  | External_call_reverted

record 'ts IERC20 =
  balanceOf :: "'ts \<Rightarrow> address \<Rightarrow> uint256 option"
  transferFrom :: "'ts \<Rightarrow> address \<Rightarrow> address \<Rightarrow> address \<Rightarrow> uint256 \<Rightarrow> ('ts \<times> bool) option"
  transfer :: "'ts \<Rightarrow> address \<Rightarrow> address \<Rightarrow> uint256 \<Rightarrow> ('ts \<times> bool) option"

type_synonym proof_a = "uint256 \<times> uint256"
type_synonym proof_b = "(uint256 \<times> uint256) \<times> (uint256 \<times> uint256)"
type_synonym proof_c = "uint256 \<times> uint256"

text \<open>The contract's address, its two immutables and the code behind them.\<close>

record 'ts deployment =
  this :: address
  token :: address
  tokenCode :: "'ts IERC20"
  verifyProof :: "proof_a \<Rightarrow> proof_b \<Rightarrow> proof_c \<Rightarrow> uint256 list \<Rightarrow> bool option"

text \<open>
  What a call can change: the contract's storage (\<open>admin\<close>, \<open>whitelistedRelayers\<close>), the
  token's state, and the log of emitted events.
\<close>

record 'ts chain =
  admin :: address
  whitelistedRelayers :: "address \<Rightarrow> bool"
  tokenState :: "'ts"
  emitted :: "event list"

text \<open>\<open>x + y\<close> in checked arithmetic.\<close>

definition checked_add :: "uint256 \<Rightarrow> uint256 \<Rightarrow> uint256 option" where
  "checked_add x y = (if unat x + unat y < 2 ^ 256 then Some (x + y) else None)"

definition PrivaxProtocol_deposit ::
  "'ts deployment \<Rightarrow> address \<Rightarrow> 'ts chain \<Rightarrow> uint256 \<Rightarrow> bytes32 \<Rightarrow> revert + 'ts chain" where
  "PrivaxProtocol_deposit d msg_sender s amount commitment =
     (if \<not> amount > 0 then Inl Deposit_amount_must_be_greater_than_zero
      else
        case balanceOf (tokenCode d) (tokenState s) (this d) of
          None \<Rightarrow> Inl External_call_reverted
        | Some initialBalance \<Rightarrow>
        case transferFrom (tokenCode d) (tokenState s) (this d) msg_sender (this d) amount of
          None \<Rightarrow> Inl External_call_reverted
        | Some (ts', _) \<Rightarrow>
        case balanceOf (tokenCode d) ts' (this d) of
          None \<Rightarrow> Inl External_call_reverted
        | Some finalBalance \<Rightarrow>
        case checked_add initialBalance amount of
          None \<Rightarrow> Inl Panic_arithmetic_overflow
        | Some expected \<Rightarrow>
            if finalBalance \<noteq> expected then Inl Token_transfer_failed_or_incorrect_amount
            else Inr (s\<lparr>tokenState := ts',
                        emitted := emitted s @
                          [DepositOccurred msg_sender (token d) amount commitment]\<rparr>))"

definition PrivaxProtocol_withdraw ::
  "'ts deployment \<Rightarrow> 'ts chain \<Rightarrow> proof_a \<Rightarrow> proof_b \<Rightarrow> proof_c \<Rightarrow> uint256 list \<Rightarrow>
   address \<Rightarrow> uint256 \<Rightarrow> revert + 'ts chain" where
  "PrivaxProtocol_withdraw d s a b c publicInputs recipient amountToWithdraw =
     (if \<not> amountToWithdraw > 0 then Inl Withdrawal_amount_must_be_greater_than_zero
      else if \<not> recipient \<noteq> 0 then Inl Recipient_cannot_be_the_zero_address
      else if \<not> length publicInputs = 5 then Inl Incorrect_number_of_public_inputs
      else if \<not> (ucast recipient :: uint256) = publicInputs ! 2
        then Inl Recipient_mismatch_in_proof_inputs
      else if \<not> amountToWithdraw = publicInputs ! 3 then Inl Amount_mismatch_in_proof_inputs
      else
        case verifyProof d a b c publicInputs of
          None \<Rightarrow> Inl External_call_reverted
        | Some isValid \<Rightarrow>
        if \<not> isValid then Inl Invalid_ZK_proof
        else
          let nullifierHash = publicInputs ! 1 in
          case balanceOf (tokenCode d) (tokenState s) recipient of
            None \<Rightarrow> Inl External_call_reverted
          | Some initialRecipientBalance \<Rightarrow>
          case transfer (tokenCode d) (tokenState s) (this d) recipient amountToWithdraw of
            None \<Rightarrow> Inl External_call_reverted
          | Some (ts', _) \<Rightarrow>
          case balanceOf (tokenCode d) ts' recipient of
            None \<Rightarrow> Inl External_call_reverted
          | Some finalRecipientBalance \<Rightarrow>
          case checked_add initialRecipientBalance amountToWithdraw of
            None \<Rightarrow> Inl Panic_arithmetic_overflow
          | Some expected \<Rightarrow>
              if finalRecipientBalance \<noteq> expected
              then Inl Token_transfer_failed_or_incorrect_amount
              else Inr (s\<lparr>tokenState := ts',
                          emitted := emitted s @
                            [WithdrawalOccurred nullifierHash recipient (token d)
                               amountToWithdraw]\<rparr>))"

text \<open>
  \<open>contract MockVerifier\<close>: \<open>verifyProof\<close> returns the stored \<open>_verificationResult\<close>,
  which is \<open>true\<close> until \<open>setVerificationResult\<close> changes it.
\<close>

definition MockVerifier_verifyProof ::
  "bool \<Rightarrow> proof_a \<Rightarrow> proof_b \<Rightarrow> proof_c \<Rightarrow> uint256 list \<Rightarrow> bool option" where
  "MockVerifier_verifyProof verificationResult a b c publicInputs = Some verificationResult"

subsection \<open>A standard token for evaluation\<close>

text \<open>
  A token whose state is its list of balances (an absent holder has balance 0). A transfer
  moves the amount when the sender holds it and reverts otherwise; the allowance of
  \<open>transferFrom\<close> is taken as granted.
\<close>

type_synonym balances = "(address \<times> uint256) list"

definition balance_of :: "balances \<Rightarrow> address \<Rightarrow> uint256" where
  "balance_of bs a = (case map_of bs a of None \<Rightarrow> 0 | Some v \<Rightarrow> v)"

definition set_balance :: "balances \<Rightarrow> address \<Rightarrow> uint256 \<Rightarrow> balances" where
  "set_balance bs a v = (a, v) # filter (\<lambda>kv. fst kv \<noteq> a) bs"

definition move :: "balances \<Rightarrow> address \<Rightarrow> address \<Rightarrow> uint256 \<Rightarrow> (balances \<times> bool) option" where
  "move bs src dst amount =
     (if balance_of bs src < amount then None
      else
        let bs1 = set_balance bs src (balance_of bs src - amount);
            bs2 = set_balance bs1 dst (balance_of bs1 dst + amount)
        in Some (bs2, True))"

definition standard_token :: "balances IERC20" where
  "standard_token =
     \<lparr>balanceOf = (\<lambda>bs a. Some (balance_of bs a)),
      transferFrom = (\<lambda>bs caller src dst amount. move bs src dst amount),
      transfer = (\<lambda>bs caller dst amount. move bs caller dst amount)\<rparr>"

text \<open>
  The deployment used for evaluation: the ledger at address 100, the token at 200, the
  mock verifier with its initial result. Initially the depositor 7 holds 50 tokens.
\<close>

definition mock_deployment :: "balances deployment" where
  "mock_deployment =
     \<lparr>this = 100, token = 200, tokenCode = standard_token,
      verifyProof = MockVerifier_verifyProof True\<rparr>"

definition genesis :: "balances chain" where
  "genesis =
     \<lparr>admin = 1, whitelistedRelayers = (\<lambda>_. False), tokenState = [(7, 50)], emitted = []\<rparr>"

text \<open>
  The ledger's checks before the verifier is called and the first state of the ledger
  after a deposit of 30 by holder 7, both used in statements below.
\<close>

definition validation_reverts :: "revert set" where
  "validation_reverts =
     {Withdrawal_amount_must_be_greater_than_zero, Recipient_cannot_be_the_zero_address,
      Incorrect_number_of_public_inputs, Recipient_mismatch_in_proof_inputs,
      Amount_mismatch_in_proof_inputs}"

definition funded :: "balances chain" where
  "funded =
     genesis\<lparr>tokenState := [(100, 30), (7, 20)], emitted := [DepositOccurred 7 200 30 99]\<rparr>"

section \<open>The reference flow\<close>

text \<open>
  \<open>circuits/index.js\<close>: the module-level store \<open>deposits\<close> (an object keyed by the
  commitment), the set \<open>spentNullifiers\<close> and the variable \<open>merkleTree\<close>, which is
  \<open>undefined\<close> (\<open>None\<close>) until \<open>initialize\<close> assigns it; a method call on it throws a
  TypeError before that. The module state is passed explicitly.
  Each function returns its outcome and the module state after the call. The two values
  drawn by \<open>randomField()\<close> and the clock read by \<open>Date.now()\<close> are arguments
  (\<open>secret\<close>, \<open>nullifierSecret\<close>, \<open>now\<close>). Reading the verification key and
  \<open>snarkjs.groth16.verify\<close> are one oracle \<open>verify\<close>, which may throw.

  \<open>spentNullifiers\<close> is a JavaScript \<open>Set\<close>. \<open>withdraw\<close> passes its first argument to
  \<open>has\<close> and \<open>add\<close> as it is, without conversion, and a \<open>Set\<close> compares its elements by
  type and value: the string \<open>'22'\<close>, the number \<open>22\<close> and the bigint \<open>22n\<close> are three
  elements. The type \<open>'k\<close> is the type of JavaScript values as a \<open>Set\<close> tells them apart;
  \<open>js_value\<close> gives the strings, integral numbers and bigints among them, for
  evaluation. \<open>generateWithdrawalProof\<close> assigns no module state and is not modelled.
\<close>

datatype js_value = JString string | JNumber int | JBigInt int

record deposit_record =
  dep_index :: nat
  dep_amount :: field_input
  dep_secret :: field_input
  dep_nullifierSecret :: field_input
  dep_nullifierHash :: int
  dep_recipient :: string
  dep_timestamp :: nat

record 'k flow =
  deposits :: "int \<rightharpoonup> deposit_record"
  spentNullifiers :: "'k set"
  merkleTree :: "MerkleTree option"

definition initialize :: "'k flow \<Rightarrow> 'k flow" where
  "initialize st = st\<lparr>merkleTree := Some (MerkleTree_new_js 20)\<rparr>"

definition module_start :: "'k flow" where
  "module_start = \<lparr>deposits = Map.empty, spentNullifiers = {}, merkleTree = None\<rparr>"

text \<open>The value returned is \<open>{commitment, nullifierHash, secret, nullifierSecret, index}\<close>.\<close>

definition deposit ::
  "(int list \<Rightarrow> int) \<Rightarrow> field_input \<Rightarrow> field_input \<Rightarrow> nat \<Rightarrow> 'k flow \<Rightarrow> field_input \<Rightarrow> string \<Rightarrow>
   (js_error + (int \<times> int \<times> field_input \<times> field_input \<times> nat)) \<times> 'k flow" where
  "deposit H secret nullifierSecret now st amount userAddress =
     (case generateCommitment H amount secret nullifierSecret of
        Inl e \<Rightarrow> (Inl e, st)
      | Inr commitment \<Rightarrow>
      case merkleTree st of
        None \<Rightarrow> (Inl TypeError, st)
      | Some t \<Rightarrow>
      case insert_tree t (Big commitment) of
        (Inl e, t') \<Rightarrow> (Inl e, st\<lparr>merkleTree := Some t'\<rparr>)
      | (Inr index, t') \<Rightarrow>
      case generateNullifierHash H nullifierSecret of
        Inl e \<Rightarrow> (Inl e, st\<lparr>merkleTree := Some t'\<rparr>)
      | Inr nullifierHash \<Rightarrow>
          (Inr (commitment, nullifierHash, secret, nullifierSecret, index),
           st\<lparr>merkleTree := Some t',
              deposits := (deposits st)(commitment \<mapsto>
                \<lparr>dep_index = index, dep_amount = amount, dep_secret = secret,
                 dep_nullifierSecret = nullifierSecret, dep_nullifierHash = nullifierHash,
                 dep_recipient = userAddress, dep_timestamp = now\<rparr>)\<rparr>))"

text \<open>
  The value returned by \<open>withdraw\<close> is \<open>{amount, recipient}\<close>, read from \<open>publicSignals\<close>.
  The argument \<open>nullifierHash\<close> is compared with nothing but the elements of
  \<open>spentNullifiers\<close>; in particular not with \<open>publicSignals[1]\<close>.
\<close>

definition withdraw ::
  "('p \<Rightarrow> 'x list \<Rightarrow> js_error + bool) \<Rightarrow> 'k flow \<Rightarrow> 'k \<Rightarrow> 'p \<Rightarrow> 'x list \<Rightarrow>
   (js_error + ('x option \<times> 'x option)) \<times> 'k flow" where
  "withdraw verify st nullifierHash proof publicSignals =
     (if nullifierHash \<in> spentNullifiers st then (Inl Deposit_already_withdrawn, st)
      else
        case verify proof publicSignals of
          Inl e \<Rightarrow> (Inl e, st)
        | Inr isValid \<Rightarrow>
            if \<not> isValid then (Inl Invalid_proof, st)
            else (Inr (js_index publicSignals 3, js_index publicSignals 2),
                  st\<lparr>spentNullifiers := insert nullifierHash (spentNullifiers st)\<rparr>))"

text \<open>Calls of the module's exports that assign module state, and a run of them.\<close>

datatype ('k, 'p, 'x) flow_call =
    Call_initialize
  | Call_deposit field_input field_input nat field_input string
  | Call_withdraw 'k 'p "'x list"

fun apply_call ::
  "(int list \<Rightarrow> int) \<Rightarrow> ('p \<Rightarrow> 'x list \<Rightarrow> js_error + bool) \<Rightarrow> 'k flow \<Rightarrow>
   ('k, 'p, 'x) flow_call \<Rightarrow> 'k flow" where
  "apply_call H verify st Call_initialize = initialize st"
| "apply_call H verify st (Call_deposit secret nullifierSecret now amount userAddress) =
     snd (deposit H secret nullifierSecret now st amount userAddress)"
| "apply_call H verify st (Call_withdraw nullifierHash proof publicSignals) =
     snd (withdraw verify st nullifierHash proof publicSignals)"

fun run_calls ::
  "(int list \<Rightarrow> int) \<Rightarrow> ('p \<Rightarrow> 'x list \<Rightarrow> js_error + bool) \<Rightarrow> 'k flow \<Rightarrow>
   ('k, 'p, 'x) flow_call list \<Rightarrow> 'k flow" where
  "run_calls H verify st [] = st"
| "run_calls H verify st (c # cs) = run_calls H verify (apply_call H verify st c) cs"

text \<open>A verification oracle that accepts every proof, for evaluation.\<close>

definition always_valid :: "unit \<Rightarrow> int list \<Rightarrow> js_error + bool" where
  "always_valid proof publicSignals = Inr True"

section \<open>A concrete hash for evaluation\<close>

text \<open>
  Poseidon's round constants are not part of this repository. Where a statement is
  evaluated on concrete inputs, the parameter \<open>H\<close> is instantiated with the function
  below. Like Poseidon it depends on the order of its inputs; no general theorem below
  depends on it.
\<close>

definition sample_hash :: "int list \<Rightarrow> int" where
  "sample_hash xs = foldl (\<lambda>a x. 31 * a + x + 1) 7 xs"

section \<open>Properties of the tree\<close>

lemma tree_inv_new: "tree_inv (MerkleTree_new H lv)"
  by (simp add: tree_inv_def MerkleTree_new_def)

lemma insert_tree_inv: "tree_inv t \<Longrightarrow> tree_inv (snd (insert_tree t c))"
  by (auto simp: tree_inv_def insert_tree_def Let_def split: sum.splits)

lemma toField_all_length: "toField_all cs = Inr vs \<Longrightarrow> length vs = length cs"
  by (induction cs arbitrary: vs) (auto split: sum.splits)

lemma insert_all_filled:
  "toField_all cs = Inr vs \<Longrightarrow> filled t + length cs \<le> capacity t \<Longrightarrow> length (leaves t) = capacity t \<Longrightarrow>
   insert_all t cs = t\<lparr>leaves := take (filled t) (leaves t) @ vs @ drop (filled t + length cs) (leaves t),
       filled := filled t + length cs\<rparr>"
proof (induction cs arbitrary: t vs)
  case Nil
  then show ?case by simp
next
  case (Cons c cs)
  from Cons.prems(1) obtain v ws where v: "toField c = Inr v" and ws: "toField_all cs = Inr ws" and vs: "vs = v # ws"
    by (auto split: sum.splits)
  let ?t' = "t\<lparr>leaves := (leaves t)[filled t := v], filled := Suc (filled t)\<rparr>"
  have lt: "filled t < capacity t" using Cons.prems(2) by simp
  have step: "snd (insert_tree t c) = ?t'"
    using lt v by (simp add: insert_tree_def Let_def)
  have "insert_all ?t' cs = ?t'\<lparr>leaves := take (filled ?t') (leaves ?t') @ ws @ drop (filled ?t' + length cs) (leaves ?t'),
       filled := filled ?t' + length cs\<rparr>"
    using Cons.prems by (intro Cons.IH[OF ws]) auto
  moreover have "take (Suc (filled t)) ((leaves t)[filled t := v]) = take (filled t) (leaves t) @ [v]"
    using lt Cons.prems(3) by (simp add: take_Suc_conv_app_nth)
  ultimately show ?case using step vs by simp
qed

lemma tree_inv_new_js: "tree_inv (MerkleTree_new_js lv)"
  by (simp add: tree_inv_def MerkleTree_new_js_def)

lemma insert_all_full:
  assumes "tree_inv t0" and "filled t0 = 0"
    and "toField_all cs = Inr vs" and "length cs = capacity t0"
  shows "insert_all t0 cs = t0\<lparr>leaves := vs, filled := capacity t0\<rparr>"
proof -
  have "length vs = length (leaves t0)"
    using assms toField_all_length by (fastforce simp: tree_inv_def)
  then show ?thesis
    using insert_all_filled[OF assms(3), of t0] assms by (simp add: tree_inv_def)
qed

text \<open>
  Claim C9. In a tree that satisfies the constructor's invariant (capacity \<open>2 ^ levels\<close>),
  \<open>insert\<close> with the fill pointer below the capacity writes the commitment at position
  \<open>filled\<close>, increments \<open>filled\<close> and returns the old \<open>filled\<close> as the leaf index. After
  as many inserts into an empty tree as it has capacity, the leaves are the inserted
  commitments in order and the tree is full; one more insert throws \<open>Tree is full\<close> and
  leaves the tree (its leaves and fill pointer, hence its root) as it was. The trees
  built by both constructors are empty trees of capacity \<open>2 ^ D\<close>.
\<close>

theorem insert_tree_capacity_boundary:
  "(tree_inv t \<and> filled t < capacity t \<and> toField c = Inr v \<longrightarrow>
      insert_tree t c =
        (Inr (filled t), t\<lparr>leaves := (leaves t)[filled t := v], filled := Suc (filled t)\<rparr>)
      \<and> js_index (leaves (snd (insert_tree t c))) (filled t) = Some v
      \<and> tree_inv (snd (insert_tree t c)))
   \<and> (tree_inv t0 \<and> filled t0 = 0 \<and> toField_all cs = Inr vs \<and> length cs = capacity t0 \<longrightarrow>
       (let full = insert_all t0 cs in
          filled full = 2 ^ levels t0 \<and> capacity full = 2 ^ levels t0 \<and> leaves full = vs
          \<and> insert_tree full c' = (Inl Tree_is_full, full)
          \<and> getRoot H (snd (insert_tree full c')) = getRoot H full))
   \<and> tree_inv (MerkleTree_new H D) \<and> filled (MerkleTree_new H D) = 0
   \<and> capacity (MerkleTree_new H D) = 2 ^ D
   \<and> tree_inv (MerkleTree_new_js D) \<and> filled (MerkleTree_new_js D) = 0
   \<and> capacity (MerkleTree_new_js D) = 2 ^ D"
proof (intro conjI impI)
  assume a: "tree_inv t \<and> filled t < capacity t \<and> toField c = Inr v"
  then show eq: "insert_tree t c =
        (Inr (filled t), t\<lparr>leaves := (leaves t)[filled t := v], filled := Suc (filled t)\<rparr>)"
    by (simp add: insert_tree_def Let_def)
  from a have "filled t < length (leaves t)" by (simp add: tree_inv_def)
  then show "js_index (leaves (snd (insert_tree t c))) (filled t) = Some v"
    by (simp add: eq js_index_def)
  from a show "tree_inv (snd (insert_tree t c))" by (simp add: insert_tree_inv)
next
  assume b: "tree_inv t0 \<and> filled t0 = 0 \<and> toField_all cs = Inr vs \<and> length cs = capacity t0"
  then have full: "insert_all t0 cs = t0\<lparr>leaves := vs, filled := capacity t0\<rparr>"
    by (simp add: insert_all_full)
  from b have cap: "capacity t0 = 2 ^ levels t0" by (simp add: tree_inv_def)
  show "let full = insert_all t0 cs in
          filled full = 2 ^ levels t0 \<and> capacity full = 2 ^ levels t0 \<and> leaves full = vs
          \<and> insert_tree full c' = (Inl Tree_is_full, full)
          \<and> getRoot H (snd (insert_tree full c')) = getRoot H full"
    unfolding full Let_def using cap by (simp add: insert_tree_def)
qed (simp_all add: tree_inv_new tree_inv_new_js, simp_all add: MerkleTree_new_def MerkleTree_new_js_def)

lemma toField_Big: "toField (Big v) = Inr v"
  by (simp add: toField_def)

lemma toField_Str7: "toField (Str ''7'') = Inr 7"
  by (simp add: toField_def StringToBigInt_def trim_def is_ws_def has_prefix_def
      parse_digits_def digit_val_def)

lemma new_sample_Suc0:
  "MerkleTree_new sample_hash (Suc 0) =
     \<lparr>levels = Suc 0, capacity = 2, leaves = [0, 0], zeros = [0, 6759], filled = 0\<rparr>"
  by (simp add: MerkleTree_new_def sample_hash_def numeral_2_eq_2)

theorem insert_tree_capacity_boundary_witness:
  "insert_tree (MerkleTree_new sample_hash 1) (Str ''7'') =
     (Inr 0, \<lparr>levels = 1, capacity = 2, leaves = [7, 0], zeros = [0, 6759], filled = 1\<rparr>)
   \<and> insert_tree (insert_all (MerkleTree_new sample_hash 1) [Str ''7'', Big 9]) (Big 4) =
     (Inl Tree_is_full, \<lparr>levels = 1, capacity = 2, leaves = [7, 9], zeros = [0, 6759], filled = 2\<rparr>)"
proof -
  let ?T = "MerkleTree_new sample_hash 1"
  let ?cs = "[Str ''7'', Big 9]"
  note th = insert_tree_capacity_boundary[of ?T "Str ''7''" 7 ?T ?cs "[7, 9]" "Big 4" sample_hash 1]
  have pre1: "tree_inv ?T \<and> filled ?T < capacity ?T \<and> toField (Str ''7'') = Inr 7"
    using tree_inv_new[of sample_hash 1] by (simp add: toField_Str7 new_sample_Suc0)
  have pre2: "tree_inv ?T \<and> filled ?T = 0 \<and> toField_all ?cs = Inr [7, 9]
      \<and> length ?cs = capacity ?T"
    using tree_inv_new[of sample_hash 1] by (simp add: toField_Str7 toField_Big new_sample_Suc0)
  from th pre1 have a: "insert_tree ?T (Str ''7'') =
      (Inr (filled ?T), ?T\<lparr>leaves := (leaves ?T)[filled ?T := 7], filled := Suc (filled ?T)\<rparr>)"
    by blast
  from th pre2 have b: "let full = insert_all ?T ?cs in
          filled full = 2 ^ levels ?T \<and> capacity full = 2 ^ levels ?T \<and> leaves full = [7, 9]
          \<and> insert_tree full (Big 4) = (Inl Tree_is_full, full)
          \<and> getRoot sample_hash (snd (insert_tree full (Big 4))) = getRoot sample_hash full"
    by blast
  have full: "insert_all ?T ?cs =
      \<lparr>levels = 1, capacity = 2, leaves = [7, 9], zeros = [0, 6759], filled = 2\<rparr>"
    by (simp add: new_sample_Suc0 insert_tree_def toField_Str7 toField_Big)
  from a have a': "insert_tree ?T (Str ''7'') =
     (Inr 0, \<lparr>levels = 1, capacity = 2, leaves = [7, 0], zeros = [0, 6759], filled = 1\<rparr>)"
    by (simp add: new_sample_Suc0)
  from b have b': "insert_tree (insert_all ?T ?cs) (Big 4) = (Inl Tree_is_full, insert_all ?T ?cs)"
    by (simp add: Let_def)
  show ?thesis using a' b' full by simp
qed

section \<open>Merkle proofs against the root\<close>

text \<open>
  What \<open>generateProof\<close> returns for every index below the fill pointer, when the zero
  table is readable (the TypeScript file): at level \<open>j\<close> the current index is
  \<open>index div 2 ^ j\<close>, the bit pushed is 1 for an even current index (a left child) and
  0 for an odd one, and the sibling is read from the leaf array at every level.
\<close>

lemma upt_0_Suc_map: "[0..<Suc k] = 0 # map Suc [0..<k]"
  by (simp add: upt_conv_Cons map_Suc_upt del: upt_Suc)

lemma generateProof_loop_returns:
  assumes "filled t \<le> length (leaves t)" and "i + k \<le> length (zeros t)"
  shows "generateProof_loop t k i cur pe pi =
     Inr (pe @ map (\<lambda>j. sibling_read t (i + j) (cur div 2 ^ j)) [0..<k],
          pi @ map (\<lambda>j. pushed_bit (cur div 2 ^ j)) [0..<k])"
  using assms
proof (induction k arbitrary: i cur pe pi)
  case 0
  show ?case by simp
next
  case (Suc k)
  have step: "generateProof_loop t (Suc k) i cur pe pi =
      generateProof_loop t k (Suc i) (cur div 2) (pe @ [sibling_read t i cur])
        (pi @ [pushed_bit cur])"
    using Suc.prems
    by (auto simp: Let_def pushed_bit_def sibling_read_def js_index_def)
  have ih: "generateProof_loop t k (Suc i) (cur div 2) (pe @ [sibling_read t i cur])
        (pi @ [pushed_bit cur]) =
     Inr ((pe @ [sibling_read t i cur]) @
            map (\<lambda>j. sibling_read t (Suc i + j) (cur div 2 div 2 ^ j)) [0..<k],
          (pi @ [pushed_bit cur]) @ map (\<lambda>j. pushed_bit (cur div 2 div 2 ^ j)) [0..<k])"
    using Suc.prems by (intro Suc.IH) simp_all
  have d: "\<And>j. cur div 2 div 2 ^ j = cur div 2 ^ Suc j"
    by (simp add: div_mult2_eq)
  show ?case
    unfolding step ih upt_0_Suc_map
    by (simp add: d comp_def del: upt_Suc)
qed

lemma generateProof_returns:
  assumes "tree_inv t" and "levels t \<le> length (zeros t)" and "index < filled t"
  shows "generateProof t index =
     Inr (map (\<lambda>j. sibling_read t j (index div 2 ^ j)) [0..<levels t],
          map (\<lambda>j. pushed_bit (index div 2 ^ j)) [0..<levels t])"
  using assms generateProof_loop_returns[of t 0 "levels t" index "[]" "[]"]
  by (simp add: generateProof_def tree_inv_def)

lemma length_calculateZeros: "length (calculateZeros H n) = Suc n"
  by (induction n) (simp_all add: Let_def)

text \<open>
  A tree holding one leaf, at any depth \<open>D\<close>. Every sibling on the path of leaf 0 is
  the level's zero constant and every bit pushed is 1. \<open>getRoot\<close> hashes the running
  value on the left of the zero constant at each level. The circuit's fold with all bits
  1 hashes it on the right.
\<close>

lemma getRoot_inner_tail:
  assumes "filled t = 1" and "level < length (zeros t)" and "1 \<le> i"
  shows "\<exists>hs. getRoot_inner H t level n i hashes = Inr hs \<and> length hs = length hashes
           \<and> hs ! 0 = hashes ! 0"
  using assms
proof (induction n arbitrary: i hashes)
  case 0
  show ?case by simp
next
  case (Suc n)
  let ?z = "zeros t ! level"
  have step: "getRoot_inner H t level (Suc n) i hashes =
      getRoot_inner H t level n (Suc i) (hashes[i := H [?z, ?z]])"
    using Suc.prems by (simp add: js_index_def Let_def)
  obtain hs where hs: "getRoot_inner H t level n (Suc i) (hashes[i := H [?z, ?z]]) = Inr hs"
      "length hs = length (hashes[i := H [?z, ?z]])" "hs ! 0 = (hashes[i := H [?z, ?z]]) ! 0"
    using Suc.IH[of "Suc i" "hashes[i := H [?z, ?z]]"] Suc.prems by auto
  show ?case using step hs Suc.prems by simp
qed

lemma getRoot_inner_single:
  assumes "filled t = 1" and "level < length (zeros t)" and "hashes \<noteq> []"
  shows "\<exists>hs. getRoot_inner H t level (Suc n) 0 hashes = Inr hs \<and> length hs = length hashes
           \<and> hs ! 0 = H [hashes ! 0, zeros t ! level]"
proof -
  let ?h = "hashes[0 := H [hashes ! 0, zeros t ! level]]"
  have step: "getRoot_inner H t level (Suc n) 0 hashes = getRoot_inner H t level n (Suc 0) ?h"
    using assms by (simp add: js_index_def Let_def)
  obtain hs where "getRoot_inner H t level n (Suc 0) ?h = Inr hs" "length hs = length ?h"
      "hs ! 0 = ?h ! 0"
    using getRoot_inner_tail[of t level "Suc 0" H n ?h] assms by auto
  then show ?thesis using step assms by simp
qed

lemma getRoot_levels_single:
  assumes "filled t = 1" and "capacity t = 2 ^ levels t" and "level + n = levels t"
    and "levels t \<le> length (zeros t)" and "hashes \<noteq> []"
  shows "\<exists>hs. getRoot_levels H t n level hashes = Inr hs \<and> hs \<noteq> []
           \<and> hs ! 0 = foldl (\<lambda>x z. H [x, z]) (hashes ! 0) (take n (drop level (zeros t)))"
  using assms
proof (induction n arbitrary: level hashes)
  case 0
  then show ?case by simp
next
  case (Suc n)
  have lv: "level < levels t" using Suc.prems(3) by simp
  then obtain k where k: "levels t = Suc (level + k)"
    using less_imp_Suc_add by blast
  have "capacity t = 2 ^ level * (2 * 2 ^ k)"
    unfolding Suc.prems(2) k by (simp add: power_add)
  then have sz: "capacity t div 2 ^ level div 2 = 2 ^ k"
    by simp
  obtain m where m: "capacity t div 2 ^ level div 2 = Suc m"
    using sz by (metis not0_implies_Suc power_not_zero zero_neq_numeral)
  have zl: "level < length (zeros t)" using lv Suc.prems(4) by simp
  have f1: "filled t = 1" and ne0: "hashes \<noteq> []" using Suc.prems by blast+
  obtain hs1 where hs1: "getRoot_inner H t level (Suc m) 0 hashes = Inr hs1"
      "length hs1 = length hashes" "hs1 ! 0 = H [hashes ! 0, zeros t ! level]"
    using getRoot_inner_single[OF f1 zl ne0, of H m] by blast
  have ne: "hs1 \<noteq> []" using hs1(2) ne0 by auto
  have lvn: "Suc level + n = levels t" using Suc.prems(3) by simp
  obtain hs where hs: "getRoot_levels H t n (Suc level) hs1 = Inr hs" "hs \<noteq> []"
      "hs ! 0 = foldl (\<lambda>x z. H [x, z]) (hs1 ! 0) (take n (drop (Suc level) (zeros t)))"
    using Suc.IH[OF f1 Suc.prems(2) lvn Suc.prems(4) ne] by blast
  have "drop level (zeros t) = zeros t ! level # drop (Suc level) (zeros t)"
    using zl by (rule Cons_nth_drop_Suc [symmetric])
  then have dr: "take (Suc n) (drop level (zeros t)) =
      zeros t ! level # take n (drop (Suc level) (zeros t))"
    by simp
  have "getRoot_levels H t (Suc n) level hashes = getRoot_levels H t n (Suc level) hs1"
    using hs1 m by (simp add: Let_def)
  then have "getRoot_levels H t (Suc n) level hashes = Inr hs"
    using hs(1) by simp
  moreover have "hs ! 0 =
      foldl (\<lambda>x z. H [x, z]) (hashes ! 0) (take (Suc n) (drop level (zeros t)))"
    unfolding dr using hs(3) hs1(3) by simp
  ultimately show ?case using hs(2) by blast
qed

lemma currentHashes_all_right:
  assumes "n \<le> length pe" and "\<And>i. i < n \<Longrightarrow> pi ! i = 1"
  shows "currentHashes H c pe pi n =
     foldl (\<lambda>x z. H [z mod field_p, x mod field_p]) c (take n pe)"
  using assms
proof (induction n)
  case 0
  show ?case by simp
next
  case (Suc n)
  have ih: "currentHashes H c pe pi n =
     foldl (\<lambda>x z. H [z mod field_p, x mod field_p]) c (take n pe)"
    using Suc.prems by (intro Suc.IH) simp_all
  have b: "pi ! n = 1" using Suc.prems(2)[of n] by simp
  have tk: "take (Suc n) pe = take n pe @ [pe ! n]"
    using Suc.prems(1) by (simp add: take_Suc_conv_app_nth)
  show ?case unfolding tk by (simp add: ih b Let_def)
qed

lemma single_leaf_tree:
  "snd (insert_tree (MerkleTree_new H D) (Big c)) =
     \<lparr>levels = D, capacity = 2 ^ D, leaves = (replicate (2 ^ D) 0)[0 := c],
      zeros = calculateZeros H D, filled = 1\<rparr>"
  by (simp add: insert_tree_def MerkleTree_new_def toField_Big Let_def)

lemma single_leaf_generateProof:
  "generateProof (snd (insert_tree (MerkleTree_new H D) (Big c))) 0 =
     Inr (take D (calculateZeros H D), replicate D 1)"
proof -
  let ?t = "snd (insert_tree (MerkleTree_new H D) (Big c))"
  have inv: "tree_inv ?t" by (simp add: insert_tree_inv tree_inv_new)
  have lz: "levels ?t \<le> length (zeros ?t)" and f: "0 < filled ?t" and lv: "levels ?t = D"
    by (simp_all add: single_leaf_tree length_calculateZeros)
  have pe: "map (\<lambda>j. sibling_read ?t j (0 div 2 ^ j)) [0..<D] = take D (calculateZeros H D)"
    by (simp add: list_eq_iff_nth_eq single_leaf_tree sibling_read_def length_calculateZeros)
  have pi: "map (\<lambda>j. pushed_bit (0 div 2 ^ j)) [0..<D] = replicate D 1"
    by (simp add: list_eq_iff_nth_eq pushed_bit_def)
  show ?thesis
    using generateProof_returns[OF inv lz f] pe pi by (simp add: lv)
qed

lemma single_leaf_getRoot:
  "getRoot H (snd (insert_tree (MerkleTree_new H D) (Big c))) =
     Inr (foldl (\<lambda>x z. H [x, z]) c (take D (calculateZeros H D)))"
proof -
  let ?t = "snd (insert_tree (MerkleTree_new H D) (Big c))"
  have f1: "filled ?t = 1" and cap: "capacity ?t = 2 ^ levels ?t"
    and lvn: "0 + D = levels ?t" and lz: "levels ?t \<le> length (zeros ?t)"
    and ne: "leaves ?t \<noteq> []" and l0: "leaves ?t ! 0 = c" and zs: "zeros ?t = calculateZeros H D"
    by (simp_all add: single_leaf_tree length_calculateZeros)
  obtain hs where hs: "getRoot_levels H ?t D 0 (leaves ?t) = Inr hs" "hs \<noteq> []"
      "hs ! 0 = foldl (\<lambda>x z. H [x, z]) (leaves ?t ! 0) (take D (drop 0 (zeros ?t)))"
    using getRoot_levels_single[OF f1 cap lvn lz ne, of H] by blast
  have "getRoot H ?t = Inr (hs ! 0)"
    using hs(1,2) f1 lvn by (simp add: getRoot_def js_index_def)
  then show ?thesis using hs(3) l0 zs by simp
qed

text \<open>
  Claim C4, evaluated on the code. A tree of any depth \<open>D\<close> holding the single leaf
  \<open>c\<close> (for \<open>D = 20\<close>, the tree of the repository's circuit test): \<open>generateProof(0)\<close>
  returns the zero constants with direction bits all 1; folded as the circuit folds, with
  bit 1 placing the current node on the right, this is \<open>H [z, x]\<close> at every level,
  while \<open>getRoot\<close> is \<open>H [x, z]\<close> at every level. A tree of depth 2 holding 5 and 6:
  \<open>generateProof(0)\<close> returns the leaf 6 at both levels with bits 1 and 1; the fold is
  \<open>H [6, H [6, 5]]\<close>, the root is \<open>H [H [5, 6], H [0, 0]]\<close>. This holds for every
  hash \<open>H\<close>.
\<close>

theorem generateProof_fold_against_getRoot:
  "generateProof (snd (insert_tree (MerkleTree_new H D) (Big c))) 0
     = Inr (take D (calculateZeros H D), replicate D 1)
   \<and> currentHashes H c (take D (calculateZeros H D)) (replicate D 1) D
     = foldl (\<lambda>x z. H [z mod field_p, x mod field_p]) c (take D (calculateZeros H D))
   \<and> getRoot H (snd (insert_tree (MerkleTree_new H D) (Big c)))
     = Inr (foldl (\<lambda>x z. H [x, z]) c (take D (calculateZeros H D)))
   \<and> generateProof (insert_all (MerkleTree_new H 2) [Big 5, Big 6]) 0 = Inr ([6, 6], [1, 1])
   \<and> currentHashes H 5 [6, 6] [1, 1] 2 = H [6, H [6, 5] mod field_p]
   \<and> getRoot H (insert_all (MerkleTree_new H 2) [Big 5, Big 6]) = Inr (H [H [5, 6], H [0, 0]])"
proof (intro conjI)
  show "generateProof (snd (insert_tree (MerkleTree_new H D) (Big c))) 0
     = Inr (take D (calculateZeros H D), replicate D 1)"
    by (rule single_leaf_generateProof)
  show "currentHashes H c (take D (calculateZeros H D)) (replicate D 1) D
     = foldl (\<lambda>x z. H [z mod field_p, x mod field_p]) c (take D (calculateZeros H D))"
    using currentHashes_all_right[of D "take D (calculateZeros H D)" "replicate D 1" H c]
    by (simp add: length_calculateZeros)
  show "getRoot H (snd (insert_tree (MerkleTree_new H D) (Big c)))
     = Inr (foldl (\<lambda>x z. H [x, z]) c (take D (calculateZeros H D)))"
    by (rule single_leaf_getRoot)
  show "generateProof (insert_all (MerkleTree_new H 2) [Big 5, Big 6]) 0 = Inr ([6, 6], [1, 1])"
    by code_simp
  show "currentHashes H 5 [6, 6] [1, 1] 2 = H [6, H [6, 5] mod field_p]"
    by (simp add: numeral_2_eq_2 Let_def field_p_def)
  show "getRoot H (insert_all (MerkleTree_new H 2) [Big 5, Big 6]) = Inr (H [H [5, 6], H [0, 0]])"
    by code_simp
qed

text \<open>
  At depth 1 with the leaf 5 the fold is \<open>H [0, 5]\<close> and the root is \<open>H [5, 0]\<close>.
\<close>

lemma depth_one_fold_and_root:
  "generateProof (insert_all (MerkleTree_new H 1) [Big 5]) 0 = Inr ([0], [1])
   \<and> currentHashes H 5 [0] [1] 1 = H [0, 5]
   \<and> getRoot H (insert_all (MerkleTree_new H 1) [Big 5]) = Inr (H [5, 0])"
proof (intro conjI)
  show "generateProof (insert_all (MerkleTree_new H 1) [Big 5]) 0 = Inr ([0], [1])"
    by code_simp
  show "currentHashes H 5 [0] [1] 1 = H [0, 5]"
    by (simp add: Let_def field_p_def)
  show "getRoot H (insert_all (MerkleTree_new H 1) [Big 5]) = Inr (H [5, 0])"
    by code_simp
qed

text \<open>With the concrete hash the two values differ.\<close>

lemma sample_fold_differs_from_root:
  "Inr (currentHashes sample_hash 5 [0] [1] 1) \<noteq>
     getRoot sample_hash (insert_all (MerkleTree_new sample_hash 1) [Big 5])"
  by code_simp

text \<open>
  The JavaScript file reads the zero table off a promise. There \<open>getRoot\<close> of the
  empty tree returns \<open>undefined\<close>, \<open>getRoot\<close> of a tree that is neither empty nor full
  throws a TypeError, and so does \<open>generateProof\<close> as soon as a sibling is absent.
\<close>

lemma js_tree_reads_undefined:
  "getRoot_js H (MerkleTree_new_js 2) = Inr None
   \<and> getRoot_js H (insert_all (MerkleTree_new_js 2) [Big 5, Big 6]) = Inl TypeError
   \<and> generateProof (insert_all (MerkleTree_new_js 2) [Big 5]) 0 = Inl TypeError"
  by code_simp

text \<open>
  Claim C5, evaluated on the code. In a tree of depth 2 holding 5, 6 and 7, leaf 2 is a
  left child at level 0 and its parent is a right child at level 1, and the sibling of
  that parent is the node \<open>H [5, 6]\<close>. \<open>generateProof(2)\<close> returns the direction bits 1
  and 0 and, at level 1, the leaf 5. An index at or above the fill pointer throws
  \<open>Leaf does not exist\<close>.
\<close>

theorem generateProof_three_leaves:
  "generateProof (insert_all (MerkleTree_new H 2) [Big 5, Big 6, Big 7]) 2 = Inr ([0, 5], [1, 0])
   \<and> generateProof (insert_all (MerkleTree_new H 2) [Big 5, Big 6, Big 7]) 3
       = Inl Leaf_does_not_exist"
  by code_simp

section \<open>The note hashes on both sides\<close>

lemma toField_Str1: "toField (Str ''1'') = Inr 1"
  by (simp add: toField_def StringToBigInt_def trim_def is_ws_def has_prefix_def
      parse_digits_def digit_val_def)

text \<open>
  Claim C8. For arguments that \<open>BigInt\<close> converts, \<open>generateCommitment\<close> returns the
  circuit's \<open>Poseidon(3)\<close> commitment on the same three values in the same order, and
  \<open>generateNullifierHash\<close> returns the circuit's \<open>Poseidon(2)\<close> nullifier hash on the
  nullifier secret and the constant 1: the string \<open>'1'\<close> of the JavaScript side converts
  to the circuit's constant.
\<close>

theorem note_hashes_agree_with_circuit:
  "toField amount = Inr a \<Longrightarrow> toField secret = Inr s \<Longrightarrow> toField nullifierSecret = Inr n \<Longrightarrow>
   generateCommitment H amount secret nullifierSecret = Inr (commitmentHasher H a s n)
   \<and> generateNullifierHash H nullifierSecret = Inr (nullifierHasher H n)"
  by (simp add: generateCommitment_def generateNullifierHash_def poseidonHash_def
      commitmentHasher_def nullifierHasher_def toField_Str1)

lemma StringToBigInt_examples:
  "StringToBigInt ''1000000000000000000'' = Some 1000000000000000000
   \<and> StringToBigInt ''0x1f'' = Some 31 \<and> StringToBigInt ''0xAb'' = Some 171
   \<and> StringToBigInt '' 12 '' = Some 12 \<and> StringToBigInt ''-12'' = Some (- 12)
   \<and> StringToBigInt '''' = Some 0 \<and> StringToBigInt ''0x'' = None
   \<and> StringToBigInt ''12a'' = None"
  by (simp add: StringToBigInt_def trim_def is_ws_def has_prefix_def
      parse_digits_def digit_val_def)

theorem note_hashes_agree_with_circuit_witness:
  "generateCommitment sample_hash (Str ''1000000000000000000'') (Str ''0x1f'') (Big 9)
     = Inr (commitmentHasher sample_hash 1000000000000000000 31 9)
   \<and> generateNullifierHash sample_hash (Big 9) = Inr (nullifierHasher sample_hash 9)"
proof -
  have a: "toField (Str ''1000000000000000000'') = Inr 1000000000000000000"
    using StringToBigInt_examples by (simp add: toField_def)
  have s: "toField (Str ''0x1f'') = Inr 31"
    using StringToBigInt_examples by (simp add: toField_def)
  have n: "toField (Big 9) = Inr 9" by (rule toField_Big)
  show ?thesis by (rule note_hashes_agree_with_circuit[OF a s n])
qed

section \<open>The ledger's withdraw\<close>

lemma address_ucast_inj:
  "(ucast (x :: address) :: uint256) = ucast (y :: address) \<Longrightarrow> x = y"
proof -
  assume eq: "(ucast x :: uint256) = ucast y"
  have up: "is_up (ucast :: address \<Rightarrow> uint256)" by (simp add: is_up)
  have "(ucast (ucast x :: uint256) :: address) = ucast (ucast y :: uint256)"
    using eq by simp
  then show "x = y" using up by (simp add: ucast_up_ucast_id)
qed

lemma withdraw_validation_fails:
  assumes "length publicInputs \<noteq> 5 \<or> (ucast recipient :: uint256) \<noteq> publicInputs ! 2
           \<or> amountToWithdraw \<noteq> publicInputs ! 3"
  shows "\<exists>e \<in> validation_reverts.
           PrivaxProtocol_withdraw d s a b c publicInputs recipient amountToWithdraw = Inl e"
  using assms by (auto simp: PrivaxProtocol_withdraw_def validation_reverts_def)

text \<open>
  Claim C6. The ledger's \<open>withdraw\<close> checks, before it calls the verifier or the token,
  that there are exactly 5 public inputs, that the recipient argument widened to 256 bits
  equals \<open>publicInputs[2]\<close> and that the amount argument equals \<open>publicInputs[3]\<close>.
  A call with another count, or with a recipient or amount that differs from the encoded
  one, reverts with one of the validation messages whatever the verifier and the token
  would do; in particular public inputs bound to recipient A are rejected for any other
  recipient B. A revert leaves the chain state as it was.
\<close>

theorem withdraw_validates_public_inputs:
  "(0 < amountToWithdraw \<and> recipient \<noteq> 0 \<and> length publicInputs \<noteq> 5 \<longrightarrow>
      PrivaxProtocol_withdraw d s a b c publicInputs recipient amountToWithdraw
        = Inl Incorrect_number_of_public_inputs)
   \<and> (0 < amountToWithdraw \<and> recipient \<noteq> 0 \<and> length publicInputs = 5
        \<and> (ucast recipient :: uint256) \<noteq> publicInputs ! 2 \<longrightarrow>
      PrivaxProtocol_withdraw d s a b c publicInputs recipient amountToWithdraw
        = Inl Recipient_mismatch_in_proof_inputs)
   \<and> (0 < amountToWithdraw \<and> recipient \<noteq> 0 \<and> length publicInputs = 5
        \<and> (ucast recipient :: uint256) = publicInputs ! 2
        \<and> amountToWithdraw \<noteq> publicInputs ! 3 \<longrightarrow>
      PrivaxProtocol_withdraw d s a b c publicInputs recipient amountToWithdraw
        = Inl Amount_mismatch_in_proof_inputs)
   \<and> (length publicInputs \<noteq> 5 \<or> (ucast recipient :: uint256) \<noteq> publicInputs ! 2
        \<or> amountToWithdraw \<noteq> publicInputs ! 3 \<longrightarrow>
      (\<exists>e \<in> validation_reverts.
         PrivaxProtocol_withdraw d s a b c publicInputs recipient amountToWithdraw = Inl e))
   \<and> (publicInputs ! 2 = ucast recipientA \<and> recipientB \<noteq> recipientA \<longrightarrow>
      (\<exists>e \<in> validation_reverts.
         PrivaxProtocol_withdraw d s a b c publicInputs recipientB amountToWithdraw = Inl e))"
proof (intro conjI)
  show "0 < amountToWithdraw \<and> recipient \<noteq> 0 \<and> length publicInputs \<noteq> 5 \<longrightarrow>
      PrivaxProtocol_withdraw d s a b c publicInputs recipient amountToWithdraw
        = Inl Incorrect_number_of_public_inputs"
    by (simp add: PrivaxProtocol_withdraw_def)
  show "0 < amountToWithdraw \<and> recipient \<noteq> 0 \<and> length publicInputs = 5
        \<and> (ucast recipient :: uint256) \<noteq> publicInputs ! 2 \<longrightarrow>
      PrivaxProtocol_withdraw d s a b c publicInputs recipient amountToWithdraw
        = Inl Recipient_mismatch_in_proof_inputs"
    by (simp add: PrivaxProtocol_withdraw_def)
  show "0 < amountToWithdraw \<and> recipient \<noteq> 0 \<and> length publicInputs = 5
        \<and> (ucast recipient :: uint256) = publicInputs ! 2
        \<and> amountToWithdraw \<noteq> publicInputs ! 3 \<longrightarrow>
      PrivaxProtocol_withdraw d s a b c publicInputs recipient amountToWithdraw
        = Inl Amount_mismatch_in_proof_inputs"
    by (simp add: PrivaxProtocol_withdraw_def)
  show "length publicInputs \<noteq> 5 \<or> (ucast recipient :: uint256) \<noteq> publicInputs ! 2
        \<or> amountToWithdraw \<noteq> publicInputs ! 3 \<longrightarrow>
      (\<exists>e \<in> validation_reverts.
         PrivaxProtocol_withdraw d s a b c publicInputs recipient amountToWithdraw = Inl e)"
    using withdraw_validation_fails by blast
  show "publicInputs ! 2 = ucast recipientA \<and> recipientB \<noteq> recipientA \<longrightarrow>
      (\<exists>e \<in> validation_reverts.
         PrivaxProtocol_withdraw d s a b c publicInputs recipientB amountToWithdraw = Inl e)"
  proof
    assume "publicInputs ! 2 = ucast recipientA \<and> recipientB \<noteq> recipientA"
    then have "(ucast recipientB :: uint256) \<noteq> publicInputs ! 2"
      using address_ucast_inj by auto
    then show "\<exists>e \<in> validation_reverts.
         PrivaxProtocol_withdraw d s a b c publicInputs recipientB amountToWithdraw = Inl e"
      by (intro withdraw_validation_fails) simp
  qed
qed

lemmas mock_defs = mock_deployment_def genesis_def standard_token_def move_def balance_of_def
  set_balance_def checked_add_def MockVerifier_verifyProof_def Let_def

theorem withdraw_validates_public_inputs_witness:
  "PrivaxProtocol_withdraw mock_deployment funded (0, 0) ((0, 0), (0, 0)) (0, 0)
      [111, 22, 9, 10] 9 10 = Inl Incorrect_number_of_public_inputs
   \<and> PrivaxProtocol_withdraw mock_deployment funded (0, 0) ((0, 0), (0, 0)) (0, 0)
      [111, 22, 9, 10, 55] 8 10 = Inl Recipient_mismatch_in_proof_inputs
   \<and> PrivaxProtocol_withdraw mock_deployment funded (0, 0) ((0, 0), (0, 0)) (0, 0)
      [111, 22, 9, 10, 55] 9 11 = Inl Amount_mismatch_in_proof_inputs"
proof -
  note t1 = withdraw_validates_public_inputs[of 10 9 "[111, 22, 9, 10]" mock_deployment funded
      "(0, 0)" "((0, 0), (0, 0))" "(0, 0)" 9 8]
  note t2 = withdraw_validates_public_inputs[of 10 8 "[111, 22, 9, 10, 55]" mock_deployment funded
      "(0, 0)" "((0, 0), (0, 0))" "(0, 0)" 9 8]
  note t3 = withdraw_validates_public_inputs[of 11 9 "[111, 22, 9, 10, 55]" mock_deployment funded
      "(0, 0)" "((0, 0), (0, 0))" "(0, 0)" 9 8]
  have a: "PrivaxProtocol_withdraw mock_deployment funded (0, 0) ((0, 0), (0, 0)) (0, 0)
      [111, 22, 9, 10] 9 10 = Inl Incorrect_number_of_public_inputs"
    using t1 by simp
  have b: "PrivaxProtocol_withdraw mock_deployment funded (0, 0) ((0, 0), (0, 0)) (0, 0)
      [111, 22, 9, 10, 55] 8 10 = Inl Recipient_mismatch_in_proof_inputs"
    using t2 by simp
  have c: "PrivaxProtocol_withdraw mock_deployment funded (0, 0) ((0, 0), (0, 0)) (0, 0)
      [111, 22, 9, 10, 55] 9 11 = Inl Amount_mismatch_in_proof_inputs"
    using t3 by simp
  show ?thesis using a b c by simp
qed

text \<open>
  Claim C10. The ledger's \<open>withdraw\<close> reads entries 1, 2 and 3 of the public inputs and
  never entry 4: two calls that differ only in \<open>publicInputs[4]\<close> and get the same
  verdict from the verifier have the same outcome, the same transfer and the same event.
  The circuit puts no constraint on \<open>externalNullifier\<close>: the constraint system holds for
  one value of it exactly when it holds for any other.
\<close>

theorem externalNullifier_not_read:
  "verifyProof d a b c (publicInputs[4 := x]) = verifyProof d a b c publicInputs \<Longrightarrow>
   PrivaxProtocol_withdraw d s a b c (publicInputs[4 := x]) recipient amountToWithdraw
     = PrivaxProtocol_withdraw d s a b c publicInputs recipient amountToWithdraw
   \<and> Withdraw H lv secret nullifierSecret pathElements pathIndices
         merkleRoot nullifierHash recipientField amount x'
     = Withdraw H lv secret nullifierSecret pathElements pathIndices
         merkleRoot nullifierHash recipientField amount y'"
  by (simp add: PrivaxProtocol_withdraw_def Withdraw_def Let_def cong: option.case_cong if_cong)

lemma withdraw_55:
  "PrivaxProtocol_withdraw mock_deployment funded (0, 0) ((0, 0), (0, 0)) (0, 0)
      [111, 22, 9, 10, 55] 9 10
   = Inr (funded\<lparr>tokenState := [(9, 10), (100, 20), (7, 20)],
            emitted := [DepositOccurred 7 200 30 99, WithdrawalOccurred 22 9 200 10]\<rparr>)"
  by (simp add: PrivaxProtocol_withdraw_def funded_def mock_defs)

theorem externalNullifier_not_read_witness:
  "PrivaxProtocol_withdraw mock_deployment funded (0, 0) ((0, 0), (0, 0)) (0, 0)
      [111, 22, 9, 10, 77] 9 10
   = Inr (funded\<lparr>tokenState := [(9, 10), (100, 20), (7, 20)],
            emitted := [DepositOccurred 7 200 30 99, WithdrawalOccurred 22 9 200 10]\<rparr>)
   \<and> Withdraw sample_hash 1 3 4 [0] [0] (sample_hash [sample_hash [10, 3, 4], 0])
        (sample_hash [4, 1]) 9 10 77
   \<and> Withdraw sample_hash 1 3 4 [0] [0] (sample_hash [sample_hash [10, 3, 4], 0])
        (sample_hash [4, 1]) 9 10 55"
proof -
  have v: "verifyProof mock_deployment (0, 0) ((0, 0), (0, 0)) (0, 0) ([111, 22, 9, 10, 55][4 := 77])
      = verifyProof mock_deployment (0, 0) ((0, 0), (0, 0)) (0, 0) [111, 22, 9, 10, 55]"
    by (simp add: mock_deployment_def MockVerifier_verifyProof_def)
  note th = externalNullifier_not_read[OF v, of funded 9 10 sample_hash 1 3 4 "[0]" "[0]"
      "sample_hash [sample_hash [10, 3, 4], 0]" "sample_hash [4, 1]" 9 10 77 55]
  have sat: "Withdraw sample_hash 1 3 4 [0] [0] (sample_hash [sample_hash [10, 3, 4], 0])
        (sample_hash [4, 1]) 9 10 55"
    by (simp add: Withdraw_def commitmentHasher_def nullifierHasher_def Let_def field_p_def
        sample_hash_def)
  show ?thesis using th sat withdraw_55 by simp
qed

section \<open>The root in withdraw\<close>

text \<open>
  Claim C2 as stated fails on the code. The ledger holds no root: its storage is \<open>admin\<close>
  and \<open>whitelistedRelayers\<close>. With the mock verifier, the same withdrawal is accepted
  with \<open>publicInputs[0] = 111\<close> and with \<open>publicInputs[0] = 222\<close>; at most one of the
  two could be a current root, and neither call reverts.
\<close>

theorem ledger_withdraw_accepts_any_root:
  "PrivaxProtocol_withdraw mock_deployment funded (0, 0) ((0, 0), (0, 0)) (0, 0)
      [111, 22, 9, 10, 55] 9 10
   = Inr (funded\<lparr>tokenState := [(9, 10), (100, 20), (7, 20)],
            emitted := [DepositOccurred 7 200 30 99, WithdrawalOccurred 22 9 200 10]\<rparr>)
   \<and> PrivaxProtocol_withdraw mock_deployment funded (0, 0) ((0, 0), (0, 0)) (0, 0)
      [222, 22, 9, 10, 55] 9 10
   = Inr (funded\<lparr>tokenState := [(9, 10), (100, 20), (7, 20)],
            emitted := [DepositOccurred 7 200 30 99, WithdrawalOccurred 22 9 200 10]\<rparr>)"
  by (simp add: PrivaxProtocol_withdraw_def funded_def mock_defs)

text \<open>
  Claim C2, amended. \<open>withdraw\<close> makes no root comparison of its own: the root entry
  is only handed to the verifier with the other public inputs. A withdrawal that passes
  the argument checks and that the verifier rejects reverts with \<open>Invalid ZK proof\<close>;
  and for a fixed verdict of the verifier the outcome does not depend on
  \<open>publicInputs[0]\<close>, in the ledger and in the reference flow's \<open>withdraw\<close> alike.
\<close>

theorem withdraw_root_only_reaches_verifier:
  "(0 < amountToWithdraw \<and> recipient \<noteq> 0 \<and> length publicInputs = 5
      \<and> (ucast recipient :: uint256) = publicInputs ! 2 \<and> amountToWithdraw = publicInputs ! 3
      \<and> verifyProof d a b c publicInputs = Some False \<longrightarrow>
    PrivaxProtocol_withdraw d s a b c publicInputs recipient amountToWithdraw
      = Inl Invalid_ZK_proof)
   \<and> (verifyProof d a b c (publicInputs[0 := r]) = verifyProof d a b c publicInputs \<longrightarrow>
    PrivaxProtocol_withdraw d s a b c (publicInputs[0 := r]) recipient amountToWithdraw
      = PrivaxProtocol_withdraw d s a b c publicInputs recipient amountToWithdraw)
   \<and> (verify proof (publicSignals[0 := r']) = verify proof publicSignals \<longrightarrow>
    withdraw verify st nullifierHash proof (publicSignals[0 := r'])
      = withdraw verify st nullifierHash proof publicSignals)"
proof (intro conjI)
  show "0 < amountToWithdraw \<and> recipient \<noteq> 0 \<and> length publicInputs = 5
      \<and> (ucast recipient :: uint256) = publicInputs ! 2 \<and> amountToWithdraw = publicInputs ! 3
      \<and> verifyProof d a b c publicInputs = Some False \<longrightarrow>
    PrivaxProtocol_withdraw d s a b c publicInputs recipient amountToWithdraw
      = Inl Invalid_ZK_proof"
    by (simp add: PrivaxProtocol_withdraw_def)
  show "verifyProof d a b c (publicInputs[0 := r]) = verifyProof d a b c publicInputs \<longrightarrow>
    PrivaxProtocol_withdraw d s a b c (publicInputs[0 := r]) recipient amountToWithdraw
      = PrivaxProtocol_withdraw d s a b c publicInputs recipient amountToWithdraw"
    by (simp add: PrivaxProtocol_withdraw_def Let_def cong: option.case_cong if_cong)
  show "verify proof (publicSignals[0 := r']) = verify proof publicSignals \<longrightarrow>
    withdraw verify st nullifierHash proof (publicSignals[0 := r'])
      = withdraw verify st nullifierHash proof publicSignals"
    by (simp add: withdraw_def js_index_def cong: sum.case_cong if_cong)
qed

theorem withdraw_root_only_reaches_verifier_witness:
  "PrivaxProtocol_withdraw (mock_deployment\<lparr>verifyProof := MockVerifier_verifyProof False\<rparr>)
      funded (0, 0) ((0, 0), (0, 0)) (0, 0) [111, 22, 9, 10, 55] 9 10 = Inl Invalid_ZK_proof
   \<and> PrivaxProtocol_withdraw mock_deployment funded (0, 0) ((0, 0), (0, 0)) (0, 0)
      [222, 22, 9, 10, 55] 9 10
     = PrivaxProtocol_withdraw mock_deployment funded (0, 0) ((0, 0), (0, 0)) (0, 0)
      [111, 22, 9, 10, 55] 9 10
   \<and> withdraw always_valid module_start (JString ''22'') () [222, 22, 9, 10, 55]
     = withdraw always_valid module_start (JString ''22'') () [111, 22, 9, 10, 55]"
proof -
  note t1 = withdraw_root_only_reaches_verifier[of 10 9 "[111, 22, 9, 10, 55]"
      "mock_deployment\<lparr>verifyProof := MockVerifier_verifyProof False\<rparr>" "(0, 0)"
      "((0, 0), (0, 0))" "(0, 0)" funded 222 always_valid "()" "[111, 22, 9, 10, 55]" 222
      module_start "JString ''22''"]
  note t2 = withdraw_root_only_reaches_verifier[of 10 9 "[111, 22, 9, 10, 55]"
      mock_deployment "(0, 0)"
      "((0, 0), (0, 0))" "(0, 0)" funded 222 always_valid "()" "[111, 22, 9, 10, 55]" 222
      module_start "JString ''22''"]
  have a: "PrivaxProtocol_withdraw (mock_deployment\<lparr>verifyProof := MockVerifier_verifyProof False\<rparr>)
      funded (0, 0) ((0, 0), (0, 0)) (0, 0) [111, 22, 9, 10, 55] 9 10 = Inl Invalid_ZK_proof"
    using t1 by (simp add: MockVerifier_verifyProof_def)
  have b: "PrivaxProtocol_withdraw mock_deployment funded (0, 0) ((0, 0), (0, 0)) (0, 0)
      [222, 22, 9, 10, 55] 9 10
     = PrivaxProtocol_withdraw mock_deployment funded (0, 0) ((0, 0), (0, 0)) (0, 0)
      [111, 22, 9, 10, 55] 9 10"
    using t2 by (simp add: mock_deployment_def MockVerifier_verifyProof_def)
  have c: "withdraw always_valid module_start (JString ''22'') () [222, 22, 9, 10, 55]
     = withdraw always_valid module_start (JString ''22'') () [111, 22, 9, 10, 55]"
    using t2 by (simp add: always_valid_def)
  show ?thesis using a b c by simp
qed

section \<open>The ledger's deposit\<close>

text \<open>
  Claim C7 as stated fails on the code. Two deposits of the same amount and commitment
  by the same holder both succeed and emit the same event
  \<open>DepositOccurred(user, token, amount, commitment)\<close>: the event carries neither a leaf
  index nor a root, and apart from the token balances and the log the chain state is as
  before; no tree is touched and no root is stored.
\<close>

theorem ledger_deposit_event_without_index:
  "PrivaxProtocol_deposit mock_deployment 7 genesis 10 99
     = Inr (genesis\<lparr>tokenState := [(100, 10), (7, 40)],
              emitted := [DepositOccurred 7 200 10 99]\<rparr>)
   \<and> PrivaxProtocol_deposit mock_deployment 7
       (genesis\<lparr>tokenState := [(100, 10), (7, 40)], emitted := [DepositOccurred 7 200 10 99]\<rparr>)
       10 99
     = Inr (genesis\<lparr>tokenState := [(100, 20), (7, 30)],
              emitted := [DepositOccurred 7 200 10 99, DepositOccurred 7 200 10 99]\<rparr>)"
  by (simp add: PrivaxProtocol_deposit_def mock_defs)

text \<open>
  Claim C7, amended. \<open>deposit\<close> reverts with \<open>Deposit amount must be greater than zero\<close>
  when the amount is 0. When it succeeds, the amount is positive, the ledger's token
  balance after \<open>transferFrom\<close> is exactly its balance before plus the amount, and the
  only changes are the token's state and one appended event
  \<open>DepositOccurred(msg.sender, token, amount, commitment)\<close>. When the token's
  \<open>transferFrom\<close> returns but the ledger's balance did not grow by exactly the amount, the
  call reverts with \<open>Token transfer failed or incorrect amount\<close>, or with an arithmetic
  panic when the balance before plus the amount exceeds the range of \<open>uint256\<close>; when it
  grew by exactly the amount, the call succeeds. Every failure is a revert, which leaves
  the chain state as it was.
\<close>

theorem ledger_deposit_escrows_and_emits:
  "(amount = 0 \<longrightarrow>
      PrivaxProtocol_deposit d msg_sender s amount commitment
        = Inl Deposit_amount_must_be_greater_than_zero)
   \<and> (PrivaxProtocol_deposit d msg_sender s amount commitment = Inr s' \<longrightarrow>
        0 < amount
        \<and> (\<exists>before after ok.
              balanceOf (tokenCode d) (tokenState s) (this d) = Some before
              \<and> transferFrom (tokenCode d) (tokenState s) (this d) msg_sender (this d) amount
                  = Some (tokenState s', ok)
              \<and> balanceOf (tokenCode d) (tokenState s') (this d) = Some after
              \<and> unat after = unat before + unat amount)
        \<and> s' = s\<lparr>tokenState := tokenState s',
                 emitted := emitted s @ [DepositOccurred msg_sender (token d) amount commitment]\<rparr>)
   \<and> (0 < amount
        \<and> balanceOf (tokenCode d) (tokenState s) (this d) = Some before
        \<and> transferFrom (tokenCode d) (tokenState s) (this d) msg_sender (this d) amount
            = Some (ts', ok)
        \<and> balanceOf (tokenCode d) ts' (this d) = Some after
        \<and> unat after \<noteq> unat before + unat amount
        \<and> unat before + unat amount < 2 ^ 256 \<longrightarrow>
      PrivaxProtocol_deposit d msg_sender s amount commitment
        = Inl Token_transfer_failed_or_incorrect_amount)
   \<and> (0 < amount
        \<and> balanceOf (tokenCode d) (tokenState s) (this d) = Some before
        \<and> transferFrom (tokenCode d) (tokenState s) (this d) msg_sender (this d) amount
            = Some (ts', ok)
        \<and> balanceOf (tokenCode d) ts' (this d) = Some after
        \<and> unat after = unat before + unat amount \<longrightarrow>
      PrivaxProtocol_deposit d msg_sender s amount commitment
        = Inr (s\<lparr>tokenState := ts',
                 emitted := emitted s @ [DepositOccurred msg_sender (token d) amount commitment]\<rparr>))
   \<and> (0 < amount
        \<and> balanceOf (tokenCode d) (tokenState s) (this d) = Some before
        \<and> transferFrom (tokenCode d) (tokenState s) (this d) msg_sender (this d) amount
            = Some (ts', ok)
        \<and> balanceOf (tokenCode d) ts' (this d) = Some after
        \<and> 2 ^ 256 \<le> unat before + unat amount \<longrightarrow>
      PrivaxProtocol_deposit d msg_sender s amount commitment
        = Inl Panic_arithmetic_overflow)"
proof (intro conjI)
  show "0 < amount
        \<and> balanceOf (tokenCode d) (tokenState s) (this d) = Some before
        \<and> transferFrom (tokenCode d) (tokenState s) (this d) msg_sender (this d) amount
            = Some (ts', ok)
        \<and> balanceOf (tokenCode d) ts' (this d) = Some after
        \<and> 2 ^ 256 \<le> unat before + unat amount \<longrightarrow>
      PrivaxProtocol_deposit d msg_sender s amount commitment
        = Inl Panic_arithmetic_overflow"
    by (simp add: PrivaxProtocol_deposit_def checked_add_def)
next
  show "0 < amount
        \<and> balanceOf (tokenCode d) (tokenState s) (this d) = Some before
        \<and> transferFrom (tokenCode d) (tokenState s) (this d) msg_sender (this d) amount
            = Some (ts', ok)
        \<and> balanceOf (tokenCode d) ts' (this d) = Some after
        \<and> unat after = unat before + unat amount \<longrightarrow>
      PrivaxProtocol_deposit d msg_sender s amount commitment
        = Inr (s\<lparr>tokenState := ts',
                 emitted := emitted s @ [DepositOccurred msg_sender (token d) amount commitment]\<rparr>)"
  proof
    assume h: "0 < amount
        \<and> balanceOf (tokenCode d) (tokenState s) (this d) = Some before
        \<and> transferFrom (tokenCode d) (tokenState s) (this d) msg_sender (this d) amount
            = Some (ts', ok)
        \<and> balanceOf (tokenCode d) ts' (this d) = Some after
        \<and> unat after = unat before + unat amount"
    have "unat after < 2 ^ 256" using unsigned_less[of after] by simp
    with h have small: "unat before + unat amount < 2 ^ 256" by simp
    then have "unat (before + amount) = unat before + unat amount"
      by (simp add: unat_word_ariths)
    with h have "after = before + amount" by (simp add: word_unat_eq_iff)
    with h small show "PrivaxProtocol_deposit d msg_sender s amount commitment
        = Inr (s\<lparr>tokenState := ts',
                 emitted := emitted s @ [DepositOccurred msg_sender (token d) amount commitment]\<rparr>)"
      by (simp add: PrivaxProtocol_deposit_def checked_add_def)
  qed
next
  show "amount = 0 \<longrightarrow>
      PrivaxProtocol_deposit d msg_sender s amount commitment
        = Inl Deposit_amount_must_be_greater_than_zero"
    by (simp add: PrivaxProtocol_deposit_def)
  show "PrivaxProtocol_deposit d msg_sender s amount commitment = Inr s' \<longrightarrow>
        0 < amount
        \<and> (\<exists>before after ok.
              balanceOf (tokenCode d) (tokenState s) (this d) = Some before
              \<and> transferFrom (tokenCode d) (tokenState s) (this d) msg_sender (this d) amount
                  = Some (tokenState s', ok)
              \<and> balanceOf (tokenCode d) (tokenState s') (this d) = Some after
              \<and> unat after = unat before + unat amount)
        \<and> s' = s\<lparr>tokenState := tokenState s',
                 emitted := emitted s @ [DepositOccurred msg_sender (token d) amount commitment]\<rparr>"
    by (auto simp: PrivaxProtocol_deposit_def checked_add_def unat_word_ariths
        split: if_splits option.splits prod.splits)
  show "0 < amount
        \<and> balanceOf (tokenCode d) (tokenState s) (this d) = Some before
        \<and> transferFrom (tokenCode d) (tokenState s) (this d) msg_sender (this d) amount
            = Some (ts', ok)
        \<and> balanceOf (tokenCode d) ts' (this d) = Some after
        \<and> unat after \<noteq> unat before + unat amount
        \<and> unat before + unat amount < 2 ^ 256 \<longrightarrow>
      PrivaxProtocol_deposit d msg_sender s amount commitment
        = Inl Token_transfer_failed_or_incorrect_amount"
    by (auto simp: PrivaxProtocol_deposit_def checked_add_def unat_word_ariths)
qed

theorem ledger_deposit_escrows_and_emits_witness:
  "PrivaxProtocol_deposit mock_deployment 7 genesis 0 99
     = Inl Deposit_amount_must_be_greater_than_zero
   \<and> PrivaxProtocol_deposit mock_deployment 7 genesis 30 99 = Inr funded
   \<and> balance_of (tokenState funded) 100 = 30
   \<and> PrivaxProtocol_deposit
        (mock_deployment\<lparr>tokenCode :=
           standard_token\<lparr>transferFrom := (\<lambda>bs caller src dst amount. Some (bs, True))\<rparr>\<rparr>)
        7 genesis 30 99
     = Inl Token_transfer_failed_or_incorrect_amount
   \<and> PrivaxProtocol_deposit
        (mock_deployment\<lparr>tokenCode :=
           standard_token\<lparr>balanceOf := (\<lambda>bs a. Some (- 1)),
                          transferFrom := (\<lambda>bs caller src dst amount. Some (bs, True))\<rparr>\<rparr>)
        7 genesis 1 99
     = Inl Panic_arithmetic_overflow"
proof -
  let ?full = "mock_deployment\<lparr>tokenCode :=
           standard_token\<lparr>balanceOf := (\<lambda>bs a. Some (- 1)),
                          transferFrom := (\<lambda>bs caller src dst amount. Some (bs, True))\<rparr>\<rparr>"
  let ?lazy = "mock_deployment\<lparr>tokenCode :=
           standard_token\<lparr>transferFrom := (\<lambda>bs caller src dst amount. Some (bs, True))\<rparr>\<rparr>"
  have dep: "PrivaxProtocol_deposit mock_deployment 7 genesis 30 99 = Inr funded"
    by (simp add: PrivaxProtocol_deposit_def funded_def mock_defs)
  note t1 = ledger_deposit_escrows_and_emits[of 0 mock_deployment 7 genesis 99 funded 0 "[]" True 0]
  note t2 = ledger_deposit_escrows_and_emits[of 30 mock_deployment 7 genesis 99 funded 0 "[]" True 0]
  note t3 = ledger_deposit_escrows_and_emits[of 30 ?lazy 7 genesis 99 funded 0 "[(7, 50)]" True 0]
  have a: "PrivaxProtocol_deposit mock_deployment 7 genesis 0 99
     = Inl Deposit_amount_must_be_greater_than_zero"
    using t1 by simp
  from t2 dep obtain before after where
    bf: "balanceOf (tokenCode mock_deployment) (tokenState genesis) (this mock_deployment) = Some before"
    and af: "balanceOf (tokenCode mock_deployment) (tokenState funded) (this mock_deployment) = Some after"
    and sum: "unat after = unat before + unat (30 :: uint256)"
    by blast
  have b0: "before = 0"
    using bf by (simp add: mock_deployment_def genesis_def standard_token_def balance_of_def)
  have a0: "after = balance_of (tokenState funded) 100"
    using af by (simp add: mock_deployment_def standard_token_def)
  have "unat (balance_of (tokenState funded) 100) = unat (30 :: uint256)"
    using sum b0 a0 by simp
  then have b: "balance_of (tokenState funded) 100 = 30"
    by (simp only: word_unat_eq_iff [symmetric])
  have pre: "balanceOf (tokenCode ?lazy) (tokenState genesis) (this ?lazy) = Some 0
     \<and> transferFrom (tokenCode ?lazy) (tokenState genesis) (this ?lazy) 7 (this ?lazy) 30
          = Some ([(7, 50)], True)
     \<and> balanceOf (tokenCode ?lazy) [(7, 50)] (this ?lazy) = Some 0"
    by (simp add: mock_deployment_def genesis_def standard_token_def balance_of_def)
  have c: "PrivaxProtocol_deposit ?lazy 7 genesis 30 99 = Inl Token_transfer_failed_or_incorrect_amount"
    using t3 pre by simp
  note t4 = ledger_deposit_escrows_and_emits[of 1 ?full 7 genesis 99 funded "- 1" "[(7, 50)]"
      True "- 1"]
  have ov: "(2::nat) ^ 256 \<le> unat (- 1 :: uint256) + unat (1 :: uint256)"
    by (simp add: unsigned_minus_1_eq_mask mask_eq_exp_minus_1)
  have pre4: "balanceOf (tokenCode ?full) (tokenState genesis) (this ?full) = Some (- 1)
     \<and> transferFrom (tokenCode ?full) (tokenState genesis) (this ?full) 7 (this ?full) 1
          = Some ([(7, 50)], True)
     \<and> balanceOf (tokenCode ?full) [(7, 50)] (this ?full) = Some (- 1)"
    by (simp add: mock_deployment_def genesis_def standard_token_def)
  have p: "PrivaxProtocol_deposit ?full 7 genesis 1 99 = Inl Panic_arithmetic_overflow"
    using t4 pre4 ov by simp
  show ?thesis using a dep b c p by blast
qed

section \<open>Spent nullifiers\<close>

text \<open>
  Claim C1 as stated fails on the ledger contract, which keeps no nullifier set. With the
  mock verifier, a withdrawal with nullifier hash 22 succeeds, and the same call repeated
  succeeds again: the recipient is paid twice and the escrow is debited twice.
\<close>

theorem ledger_withdraw_same_nullifier_twice:
  "PrivaxProtocol_withdraw mock_deployment funded (0, 0) ((0, 0), (0, 0)) (0, 0)
      [111, 22, 9, 10, 55] 9 10
   = Inr (funded\<lparr>tokenState := [(9, 10), (100, 20), (7, 20)],
            emitted := [DepositOccurred 7 200 30 99, WithdrawalOccurred 22 9 200 10]\<rparr>)
   \<and> PrivaxProtocol_withdraw mock_deployment
      (funded\<lparr>tokenState := [(9, 10), (100, 20), (7, 20)],
            emitted := [DepositOccurred 7 200 30 99, WithdrawalOccurred 22 9 200 10]\<rparr>)
      (0, 0) ((0, 0), (0, 0)) (0, 0) [111, 22, 9, 10, 55] 9 10
   = Inr (funded\<lparr>tokenState := [(9, 20), (100, 10), (7, 20)],
            emitted := [DepositOccurred 7 200 30 99, WithdrawalOccurred 22 9 200 10,
                        WithdrawalOccurred 22 9 200 10]\<rparr>)"
  by (simp add: PrivaxProtocol_withdraw_def funded_def mock_defs)

lemma deposit_spentNullifiers:
  "spentNullifiers (snd (deposit H secret nullifierSecret now st amount userAddress))
     = spentNullifiers st"
  by (simp add: deposit_def split: sum.splits option.splits prod.splits)

lemma withdraw_spentNullifiers:
  "spentNullifiers st \<subseteq> spentNullifiers (snd (withdraw verify st nullifierHash proof publicSignals))"
  by (auto simp: withdraw_def split: sum.splits)

lemma apply_call_spentNullifiers:
  "spentNullifiers st \<subseteq> spentNullifiers (apply_call H verify st call)"
  by (cases call) (simp_all add: initialize_def deposit_spentNullifiers withdraw_spentNullifiers)

lemma run_calls_spentNullifiers:
  "spentNullifiers st \<subseteq> spentNullifiers (run_calls H verify st calls)"
proof (induction calls arbitrary: st)
  case Nil
  show ?case by simp
next
  case (Cons call calls)
  have "spentNullifiers st \<subseteq> spentNullifiers (apply_call H verify st call)"
    by (rule apply_call_spentNullifiers)
  also have "\<dots> \<subseteq> spentNullifiers (run_calls H verify (apply_call H verify st call) calls)"
    by (rule Cons.IH)
  finally show ?case by simp
qed

lemma withdraw_success_spends:
  "withdraw verify st nullifierHash proof publicSignals = (Inr r, st1) \<Longrightarrow>
   nullifierHash \<in> spentNullifiers st1"
  by (auto simp: withdraw_def split: sum.splits if_splits)

text \<open>
  Claim C1, amended to the reference flow. After \<open>withdraw\<close> has succeeded for a
  \<open>nullifierHash\<close> argument, and after any further calls of \<open>initialize\<close>, \<open>deposit\<close>
  and \<open>withdraw\<close>, every \<open>withdraw\<close> presenting the same argument (the same JavaScript
  value, as the set \<open>spentNullifiers\<close> compares it: same type and same value), with any
  proof, any public signals and any verdict of the verifier, throws
  \<open>Deposit already withdrawn\<close> and leaves the deposit store, the spent set and the
  tree as they were.
\<close>

theorem flow_withdraw_spent_nullifier_rejected:
  assumes "withdraw verify st nullifierHash proof publicSignals = (Inr r, st1)"
  shows "withdraw verify' (run_calls H verify st1 calls) nullifierHash proof' publicSignals'
           = (Inl Deposit_already_withdrawn, run_calls H verify st1 calls)"
proof -
  have "nullifierHash \<in> spentNullifiers st1"
    using assms by (rule withdraw_success_spends)
  then have "nullifierHash \<in> spentNullifiers (run_calls H verify st1 calls)"
    by (rule subsetD [OF run_calls_spentNullifiers])
  then show ?thesis by (simp add: withdraw_def)
qed

theorem flow_withdraw_spent_nullifier_rejected_witness:
  "withdraw always_valid module_start (JString ''22'') () [111, 22, 9, 10, 55]
     = (Inr (Some 10, Some 9), module_start\<lparr>spentNullifiers := {JString ''22''}\<rparr>)
   \<and> withdraw always_valid
        (run_calls sample_hash always_valid (module_start\<lparr>spentNullifiers := {JString ''22''}\<rparr>)
           [Call_withdraw (JString ''23'') () [111, 23, 9, 10, 55]])
        (JString ''22'') () [222, 22, 8, 10, 55]
     = (Inl Deposit_already_withdrawn,
        module_start\<lparr>spentNullifiers := {JString ''23'', JString ''22''}\<rparr>)"
proof -
  have w: "withdraw always_valid module_start (JString ''22'') () [111, 22, 9, 10, 55]
     = (Inr (Some 10, Some 9), module_start\<lparr>spentNullifiers := {JString ''22''}\<rparr>)"
    by (simp add: withdraw_def always_valid_def module_start_def js_index_def)
  have r: "run_calls sample_hash always_valid (module_start\<lparr>spentNullifiers := {JString ''22''}\<rparr>)
           [Call_withdraw (JString ''23'') () [111, 23, 9, 10, 55]]
         = module_start\<lparr>spentNullifiers := {JString ''23'', JString ''22''}\<rparr>"
    by (simp add: withdraw_def always_valid_def module_start_def)
  from flow_withdraw_spent_nullifier_rejected[OF w, of always_valid sample_hash
      "[Call_withdraw (JString ''23'') () [111, 23, 9, 10, 55]]" "()" "[222, 22, 8, 10, 55]"]
  show ?thesis using w r by simp
qed

text \<open>
  The spent set is keyed on the argument as it is passed. After a successful
  \<open>withdraw('22', ...)\<close>, the same proof and public signals presented with the bigint
  \<open>22n\<close>, or with any first argument not yet in the set, are accepted again: the
  argument is neither converted nor compared with \<open>publicSignals[1]\<close>.
\<close>

lemma flow_withdraw_keyed_on_argument:
  "withdraw always_valid (module_start\<lparr>spentNullifiers := {JString ''22''}\<rparr>)
      (JBigInt 22) () [111, 22, 9, 10, 55]
     = (Inr (Some 10, Some 9),
        module_start\<lparr>spentNullifiers := {JBigInt 22, JString ''22''}\<rparr>)
   \<and> withdraw always_valid (module_start\<lparr>spentNullifiers := {JString ''22''}\<rparr>)
      (JString ''23'') () [111, 22, 9, 10, 55]
     = (Inr (Some 10, Some 9),
        module_start\<lparr>spentNullifiers := {JString ''23'', JString ''22''}\<rparr>)"
  by (simp add: withdraw_def always_valid_def module_start_def js_index_def)

lemma flow_withdraw_fresh_argument_replays:
  "nullifierHash' \<notin> spentNullifiers st1 \<Longrightarrow> verify proof publicSignals = Inr True \<Longrightarrow>
   withdraw verify st1 nullifierHash' proof publicSignals
     = (Inr (js_index publicSignals 3, js_index publicSignals 2),
        st1\<lparr>spentNullifiers := insert nullifierHash' (spentNullifiers st1)\<rparr>)"
  by (simp add: withdraw_def)

section \<open>What deposit stores\<close>

lemma toField_hex_examples:
  "toField (Str ''0x1f'') = Inr 31 \<and> toField (Str ''0x2a'') = Inr 42
   \<and> toField (Str ''100'') = Inr 100"
  by (simp add: toField_def StringToBigInt_def trim_def is_ws_def has_prefix_def
      parse_digits_def digit_val_def)

text \<open>
  Claim C3, amended. A successful \<open>deposit\<close> of the reference flow returns the note's
  secret and nullifier secret to the caller and stores them, with the amount, in the
  deposit store under the note's commitment. The tree receives the commitment only, at
  position \<open>filled\<close>, and the spent set is not changed.
\<close>

theorem flow_deposit_stores_note:
  assumes "merkleTree st = Some t" and "filled t < capacity t"
    and "toField amount = Inr a" and "toField secret = Inr s"
    and "toField nullifierSecret = Inr n"
  shows "deposit H secret nullifierSecret now st amount userAddress =
    (Inr (H [a, s, n], H [n, 1], secret, nullifierSecret, filled t),
     st\<lparr>merkleTree := Some (t\<lparr>leaves := (leaves t)[filled t := H [a, s, n]],
                              filled := Suc (filled t)\<rparr>),
        deposits := (deposits st)(H [a, s, n] \<mapsto>
          \<lparr>dep_index = filled t, dep_amount = amount, dep_secret = secret,
           dep_nullifierSecret = nullifierSecret, dep_nullifierHash = H [n, 1],
           dep_recipient = userAddress, dep_timestamp = now\<rparr>)\<rparr>)"
  using assms
  by (simp add: deposit_def generateCommitment_def generateNullifierHash_def poseidonHash_def
      insert_tree_def toField_Big toField_Str1 Let_def)

text \<open>
  Claim C3 as stated fails on the code. After \<open>initialize\<close> and one \<open>deposit\<close> whose
  random draws are \<open>0x1f\<close> and \<open>0x2a\<close>, the module-level deposit store holds both
  values under the note's commitment.
\<close>

theorem flow_deposit_store_holds_secrets:
  "deposits
     (snd (deposit sample_hash (Str ''0x1f'') (Str ''0x2a'') 1700000000000
             (initialize (module_start :: js_value flow)) (Str ''100'') ''123456789''))
     (sample_hash [100, 31, 42])
   = Some \<lparr>dep_index = 0, dep_amount = Str ''100'', dep_secret = Str ''0x1f'',
           dep_nullifierSecret = Str ''0x2a'', dep_nullifierHash = sample_hash [42, 1],
           dep_recipient = ''123456789'', dep_timestamp = 1700000000000\<rparr>"
proof -
  have t: "merkleTree (initialize (module_start :: js_value flow)) = Some (MerkleTree_new_js 20)"
    by (simp add: initialize_def)
  have f: "filled (MerkleTree_new_js 20) < capacity (MerkleTree_new_js 20)"
    by (simp add: MerkleTree_new_js_def)
  have "deposit sample_hash (Str ''0x1f'') (Str ''0x2a'') 1700000000000
             (initialize (module_start :: js_value flow)) (Str ''100'') ''123456789'' =
     (Inr (sample_hash [100, 31, 42], sample_hash [42, 1], Str ''0x1f'', Str ''0x2a'',
           filled (MerkleTree_new_js 20)),
      (initialize (module_start :: js_value flow))\<lparr>merkleTree := Some ((MerkleTree_new_js 20)
            \<lparr>leaves := (leaves (MerkleTree_new_js 20))[filled (MerkleTree_new_js 20)
                          := sample_hash [100, 31, 42]],
              filled := Suc (filled (MerkleTree_new_js 20))\<rparr>),
        deposits := (deposits (initialize (module_start :: js_value flow)))(sample_hash [100, 31, 42] \<mapsto>
          \<lparr>dep_index = filled (MerkleTree_new_js 20), dep_amount = Str ''100'',
           dep_secret = Str ''0x1f'',
           dep_nullifierSecret = Str ''0x2a'', dep_nullifierHash = sample_hash [42, 1],
           dep_recipient = ''123456789'', dep_timestamp = 1700000000000\<rparr>)\<rparr>)"
    using toField_hex_examples t f
    by (simp add: deposit_def generateCommitment_def generateNullifierHash_def poseidonHash_def
      insert_tree_def toField_Big toField_Str1 Let_def)
  then show ?thesis by (simp add: MerkleTree_new_js_def)
qed

theorem flow_deposit_stores_note_witness:
  "fst (deposit sample_hash (Str ''0x1f'') (Str ''0x2a'') 5
     \<lparr>deposits = Map.empty, spentNullifiers = ({} :: js_value set), merkleTree = Some (MerkleTree_new_js 1)\<rparr>
     (Str ''100'') ''123456789'')
   = Inr (sample_hash [100, 31, 42], sample_hash [42, 1], Str ''0x1f'', Str ''0x2a'', 0)
   \<and> merkleTree (snd (deposit sample_hash (Str ''0x1f'') (Str ''0x2a'') 5
     \<lparr>deposits = Map.empty, spentNullifiers = ({} :: js_value set), merkleTree = Some (MerkleTree_new_js 1)\<rparr>
     (Str ''100'') ''123456789''))
   = Some \<lparr>levels = 1, capacity = 2, leaves = [sample_hash [100, 31, 42], 0], zeros = [],
           filled = 1\<rparr>"
proof -
  let ?st = "\<lparr>deposits = Map.empty, spentNullifiers = ({} :: js_value set), merkleTree = Some (MerkleTree_new_js 1)\<rparr>"
  have t: "merkleTree ?st = Some (MerkleTree_new_js 1)" by simp
  have f: "filled (MerkleTree_new_js 1) < capacity (MerkleTree_new_js 1)"
    by (simp add: MerkleTree_new_js_def)
  have a: "toField (Str ''100'') = Inr 100" and s: "toField (Str ''0x1f'') = Inr 31"
    and n: "toField (Str ''0x2a'') = Inr 42"
    using toField_hex_examples by simp_all
  note th = flow_deposit_stores_note[OF t f a s n, of sample_hash 5 "''123456789''"]
  have js1: "MerkleTree_new_js (Suc 0) =
      \<lparr>levels = Suc 0, capacity = 2, leaves = [0, 0], zeros = [], filled = 0\<rparr>"
    by (simp add: MerkleTree_new_js_def numeral_2_eq_2)
  show ?thesis unfolding th by (simp add: js1)
qed

end
